theory Spec2Isabelle
  imports Complex_Main "HOL-Library.Multiset"
begin

section \<open>Decoded JSON values\<close>

text \<open>
  The validators, the row builder and the delta engine all receive values of type
  \<^verbatim>\<open>unknown\<close>: whatever \<^verbatim>\<open>JSON.parse\<close> produced for a line (the tests also pass
  \<^verbatim>\<open>undefined\<close>). A JavaScript number is a double: the finite ones are embedded in the
  rationals (the order is the same, and negative zero compares equal to zero), the three
  special values are kept apart because \<^verbatim>\<open>typeof\<close> calls all of them numbers and the
  comparisons treat them differently. Strings are sequences of code units; the model
  covers the code units below 256.
\<close>

datatype jsnum = Fin rat | PosInf | NegInf | NaN

datatype json =
    JUndefined
  | JNull
  | JBool bool
  | JNum jsnum
  | JStr string
  | JArr "json list"
  | JObj "(string \<times> json) list"

datatype js_type = TUndefined | TObject | TBoolean | TNumber | TString

text \<open>\<^verbatim>\<open>x > 0\<close> and \<^verbatim>\<open>x <= 0\<close> on a number: both are false on NaN.\<close>

fun num_gt0 :: "jsnum \<Rightarrow> bool" where
  "num_gt0 (Fin r) = (0 < r)"
| "num_gt0 PosInf = True"
| "num_gt0 NegInf = False"
| "num_gt0 NaN = False"

fun num_le0 :: "jsnum \<Rightarrow> bool" where
  "num_le0 (Fin r) = (r \<le> 0)"
| "num_le0 PosInf = False"
| "num_le0 NegInf = True"
| "num_le0 NaN = False"

text \<open>\<^verbatim>\<open>typeof v\<close>; null, arrays and objects all answer \<^verbatim>\<open>'object'\<close>.\<close>

fun js_typeof :: "json \<Rightarrow> js_type" where
  "js_typeof JUndefined = TUndefined"
| "js_typeof JNull = TObject"
| "js_typeof (JBool _) = TBoolean"
| "js_typeof (JNum _) = TNumber"
| "js_typeof (JStr _) = TString"
| "js_typeof (JArr _) = TObject"
| "js_typeof (JObj _) = TObject"

text \<open>Truthiness, as \<^verbatim>\<open>!v\<close> and \<^verbatim>\<open>if (v)\<close> read it.\<close>

fun js_truthy :: "json \<Rightarrow> bool" where
  "js_truthy JUndefined = False"
| "js_truthy JNull = False"
| "js_truthy (JBool b) = b"
| "js_truthy (JNum (Fin r)) = (r \<noteq> 0)"
| "js_truthy (JNum NaN) = False"
| "js_truthy (JNum _) = True"
| "js_truthy (JStr s) = (s \<noteq> [])"
| "js_truthy (JArr _) = True"
| "js_truthy (JObj _) = True"

text \<open>
  Property read \<^verbatim>\<open>v.k\<close> on a value that is neither null nor undefined. The program
  reads only the names type, message, model, usage, id, the four counters, timestamp,
  cwd and slug; none of them is an array index, \<^verbatim>\<open>length\<close>, or a property of a
  prototype, so arrays and primitives answer undefined. The association list of an
  object holds its own properties, each key once (\<^verbatim>\<open>JSON.parse\<close> has already resolved
  repeated keys).
\<close>

fun get_prop :: "json \<Rightarrow> string \<Rightarrow> json" where
  "get_prop (JObj kvs) k = (case map_of kvs k of Some v \<Rightarrow> v | None \<Rightarrow> JUndefined)"
| "get_prop _ k = JUndefined"

text \<open>
  \<^verbatim>\<open>String.prototype.trim\<close>: the white space and line terminators among the code units
  below 256 are tab, line feed, vertical tab, form feed, carriage return, space and the
  no-break space.
\<close>

definition is_js_space :: "char \<Rightarrow> bool" where
  "is_js_space c = (c \<in> set [CHR 0x09, CHR 0x0A, CHR 0x0B, CHR 0x0C, CHR 0x0D, CHR 0x20, CHR 0xA0])"

definition js_trim :: "string \<Rightarrow> string" where
  "js_trim s = rev (dropWhile is_js_space (rev (dropWhile is_js_space s)))"

section \<open>The record validator, once per module\<close>

text \<open>\<^verbatim>\<open>isTokenBearingAssistant\<close> of parser.ts.\<close>

definition parser_isTokenBearingAssistant :: "json \<Rightarrow> bool" where
  "parser_isTokenBearingAssistant entry =
    (if \<not> js_truthy entry \<or> js_typeof entry \<noteq> TObject then False
     else if get_prop entry ''type'' \<noteq> JStr ''assistant'' then False
     else if \<not> js_truthy (get_prop entry ''message'')
               \<or> js_typeof (get_prop entry ''message'') \<noteq> TObject then False
     else
       let model = get_prop (get_prop entry ''message'') ''model'';
           usage = get_prop (get_prop entry ''message'') ''usage'';
           messageId = get_prop (get_prop entry ''message'') ''id''
       in
         if (case model of JStr s \<Rightarrow> length (js_trim s) = 0 | _ \<Rightarrow> True) then False
         else if \<not> js_truthy usage \<or> js_typeof usage \<noteq> TObject then False
         else if (case get_prop usage ''input_tokens'' of
                    JNum n \<Rightarrow> num_le0 n | _ \<Rightarrow> True) then False
         else if js_typeof (get_prop usage ''output_tokens'') \<noteq> TNumber then False
         else if js_typeof (get_prop usage ''cache_creation_input_tokens'') \<noteq> TNumber then False
         else if js_typeof (get_prop usage ''cache_read_input_tokens'') \<noteq> TNumber then False
         else if (case messageId of JStr s \<Rightarrow> length s = 0 | _ \<Rightarrow> True) then False
         else True)"

text \<open>\<^verbatim>\<open>isTokenBearingAssistant\<close> of watcher.ts, which reads the message id in place.\<close>

definition watcher_isTokenBearingAssistant :: "json \<Rightarrow> bool" where
  "watcher_isTokenBearingAssistant entry =
    (if \<not> js_truthy entry \<or> js_typeof entry \<noteq> TObject then False
     else if get_prop entry ''type'' \<noteq> JStr ''assistant'' then False
     else if \<not> js_truthy (get_prop entry ''message'')
               \<or> js_typeof (get_prop entry ''message'') \<noteq> TObject then False
     else
       let model = get_prop (get_prop entry ''message'') ''model'';
           usage = get_prop (get_prop entry ''message'') ''usage''
       in
         if (case model of JStr s \<Rightarrow> length (js_trim s) = 0 | _ \<Rightarrow> True) then False
         else if \<not> js_truthy usage \<or> js_typeof usage \<noteq> TObject then False
         else if (case get_prop usage ''input_tokens'' of
                    JNum n \<Rightarrow> num_le0 n | _ \<Rightarrow> True) then False
         else if js_typeof (get_prop usage ''output_tokens'') \<noteq> TNumber then False
         else if js_typeof (get_prop usage ''cache_creation_input_tokens'') \<noteq> TNumber then False
         else if js_typeof (get_prop usage ''cache_read_input_tokens'') \<noteq> TNumber then False
         else if (case get_prop (get_prop entry ''message'') ''id'' of
                    JStr s \<Rightarrow> length s = 0 | _ \<Rightarrow> True) then False
         else True)"

text \<open>The record that \<^verbatim>\<open>makeAssistantEntry\<close> of the tests builds, reduced to the fields read.\<close>

definition mk_usage :: "rat \<Rightarrow> rat \<Rightarrow> rat \<Rightarrow> rat \<Rightarrow> json" where
  "mk_usage i out cr cw = JObj
     [(''input_tokens'', JNum (Fin i)), (''output_tokens'', JNum (Fin out)),
      (''cache_creation_input_tokens'', JNum (Fin cw)),
      (''cache_read_input_tokens'', JNum (Fin cr))]"

definition mk_entry :: "string \<Rightarrow> string \<Rightarrow> json \<Rightarrow> json" where
  "mk_entry mid model usage = JObj
     [(''type'', JStr ''assistant''),
      (''message'', JObj [(''model'', JStr model), (''id'', JStr mid), (''usage'', usage)])]"

section \<open>The world outside the program\<close>

text \<open>
  Every exception the modelled code can raise is a \<^verbatim>\<open>TypeError\<close>: a property read on
  null or undefined, a call of something that is not a function, a failed conversion to
  a primitive.
\<close>

datatype error = TypeError

datatype dirent_kind = File | Directory | Other

text \<open>
  What the program is given and does not define itself. The projects path depends on the
  home directory. The two constants come from cache.ts, which is not among the sources;
  they are taken as parameters. \<^verbatim>\<open>Date.parse\<close> takes the raw timestamp value: it converts
  it to a string first, which can raise for an object, and answers NaN (here \<open>None\<close>) for
  a string that is no date. \<^verbatim>\<open>JSON.parse\<close> answers \<open>None\<close> where it raises a syntax error.
  The file system is a snapshot: \<open>None\<close> is a rejected call, \<open>fs_stat\<close> gives the
  modification time and the size, \<open>fs_read p pos len\<close> the decoded bytes of a range.
\<close>

record env =
  CLAUDE_CODE_PROJECTS_PATH :: string
  CACHE_TTL_MS :: rat
  SESSION_AGGREGATE_CACHE_MAX :: nat
  date_parse :: "json \<Rightarrow> error + rat option"
  json_parse :: "string \<Rightarrow> json option"
  fs_access :: "string \<Rightarrow> bool"
  fs_readdir :: "string \<Rightarrow> (string \<times> dirent_kind) list option"
  fs_stat :: "string \<Rightarrow> (rat \<times> nat) option"
  fs_readFile :: "string \<Rightarrow> string option"
  fs_read :: "string \<Rightarrow> nat \<Rightarrow> nat \<Rightarrow> string option"
  fs_watch :: "string \<Rightarrow> bool"

section \<open>Usage rows\<close>

record usage_tokens =
  input :: jsnum
  "output" :: jsnum
  cacheRead :: "jsnum option"
  cacheWrite :: "jsnum option"

record SessionUsageData =
  sessionId :: string
  providerId :: string
  modelId :: string
  tokens :: usage_tokens
  timestamp :: rat
  sessionUpdatedAt :: rat
  sessionName :: "string option"
  projectPath :: "string option"

text \<open>
  A JavaScript \<^verbatim>\<open>Map\<close> keeps its keys in insertion order; \<^verbatim>\<open>set\<close> on a key already
  present replaces the value where it stands, on a new key it appends.
\<close>

fun map_set :: "'k \<Rightarrow> 'v \<Rightarrow> ('k \<times> 'v) list \<Rightarrow> ('k \<times> 'v) list" where
  "map_set k v [] = [(k, v)]"
| "map_set k v ((k', v') # m) = (if k' = k then (k, v) # m else (k', v') # map_set k v m)"

definition map_delete :: "'k \<Rightarrow> ('k \<times> 'v) list \<Rightarrow> ('k \<times> 'v) list" where
  "map_delete k m = filter (\<lambda>kv. fst kv \<noteq> k) m"

text \<open>
  Reading a field of a record the validator has accepted: the counters are numbers and
  the model and id are strings there (lemma \<open>validated_fields\<close>), the other branch is
  never taken.
\<close>

fun as_num :: "json \<Rightarrow> jsnum" where
  "as_num (JNum n) = n"
| "as_num _ = NaN"

fun as_str :: "json \<Rightarrow> string" where
  "as_str (JStr s) = s"
| "as_str _ = []"

definition entry_usage :: "json \<Rightarrow> json" where
  "entry_usage entry = get_prop (get_prop entry ''message'') ''usage''"

definition entry_message_id :: "json \<Rightarrow> string" where
  "entry_message_id entry = as_str (get_prop (get_prop entry ''message'') ''id'')"

text \<open>\<^verbatim>\<open>toTimestamp\<close> of parser.ts.\<close>

definition parser_toTimestamp :: "env \<Rightarrow> json \<Rightarrow> rat \<Rightarrow> error + rat" where
  "parser_toTimestamp E v fallback =
    (if \<not> js_truthy v then Inr fallback
     else case date_parse E v of
       Inl e \<Rightarrow> Inl e
     | Inr None \<Rightarrow> Inr fallback
     | Inr (Some parsed) \<Rightarrow> Inr parsed)"

text \<open>
  \<^verbatim>\<open>extractProjectPath\<close> of utils.ts: \<^verbatim>\<open>entry.cwd?.trim()\<close> raises when the entry is
  null or undefined, and when cwd is neither a string nor null nor undefined (it has
  no callable \<^verbatim>\<open>trim\<close>).
\<close>

fun extractProjectPath :: "json list \<Rightarrow> error + string option" where
  "extractProjectPath [] = Inr None"
| "extractProjectPath (entry # rest) =
    (if entry = JNull \<or> entry = JUndefined then Inl TypeError
     else case get_prop entry ''cwd'' of
       JUndefined \<Rightarrow> extractProjectPath rest
     | JNull \<Rightarrow> extractProjectPath rest
     | JStr s \<Rightarrow> if js_trim s \<noteq> [] then Inr (Some (js_trim s)) else extractProjectPath rest
     | _ \<Rightarrow> Inl TypeError)"

text \<open>\<^verbatim>\<open>extractSlug\<close> of parser.ts walks the entries from the last one down.\<close>

fun extractSlug_down :: "json list \<Rightarrow> error + string option" where
  "extractSlug_down [] = Inr None"
| "extractSlug_down (entry # below) =
    (if entry = JNull \<or> entry = JUndefined then Inl TypeError
     else case get_prop entry ''slug'' of
       JStr s \<Rightarrow> if 0 < length s then Inr (Some s) else extractSlug_down below
     | _ \<Rightarrow> extractSlug_down below)"

definition extractSlug :: "json list \<Rightarrow> error + string option" where
  "extractSlug entries = extractSlug_down (rev entries)"

text \<open>The token object of a row: a cache counter is attached only when it is above zero.\<close>

definition row_tokens :: "json \<Rightarrow> usage_tokens" where
  "row_tokens entry =
    (let input_tokens = as_num (get_prop (entry_usage entry) ''input_tokens'');
         output_tokens = as_num (get_prop (entry_usage entry) ''output_tokens'');
         cache_read_input_tokens = as_num (get_prop (entry_usage entry) ''cache_read_input_tokens'');
         cache_creation_input_tokens =
           as_num (get_prop (entry_usage entry) ''cache_creation_input_tokens'')
     in \<lparr> input = input_tokens, output = output_tokens,
          cacheRead = (if num_gt0 cache_read_input_tokens
                       then Some cache_read_input_tokens else None),
          cacheWrite = (if num_gt0 cache_creation_input_tokens
                        then Some cache_creation_input_tokens else None) \<rparr>)"

definition build_row ::
  "string \<Rightarrow> rat \<Rightarrow> string option \<Rightarrow> string option \<Rightarrow> json \<Rightarrow> rat \<Rightarrow> SessionUsageData" where
  "build_row sid mtimeMs sessName projPath entry ts =
    \<lparr> sessionId = sid, providerId = ''anthropic'',
      modelId = as_str (get_prop (get_prop entry ''message'') ''model''),
      tokens = row_tokens entry, timestamp = ts, sessionUpdatedAt = mtimeMs,
      sessionName = sessName, projectPath = projPath \<rparr>"

text \<open>The loop of \<^verbatim>\<open>parseSessionFileRows\<close> over the entries, with the map \<^verbatim>\<open>deduped\<close>.\<close>

fun dedupe_rows ::
  "env \<Rightarrow> string \<Rightarrow> rat \<Rightarrow> string option \<Rightarrow> string option \<Rightarrow> json list
     \<Rightarrow> (string \<times> SessionUsageData) list \<Rightarrow> error + (string \<times> SessionUsageData) list" where
  "dedupe_rows E sid mtimeMs sessName projPath [] deduped = Inr deduped"
| "dedupe_rows E sid mtimeMs sessName projPath (entry # rest) deduped =
    (if \<not> parser_isTokenBearingAssistant entry
     then dedupe_rows E sid mtimeMs sessName projPath rest deduped
     else case parser_toTimestamp E (get_prop entry ''timestamp'') mtimeMs of
       Inl e \<Rightarrow> Inl e
     | Inr ts \<Rightarrow>
         dedupe_rows E sid mtimeMs sessName projPath rest
           (map_set (entry_message_id entry)
              (build_row sid mtimeMs sessName projPath entry ts) deduped))"

definition parseSessionFileRows ::
  "env \<Rightarrow> string \<Rightarrow> rat \<Rightarrow> json list \<Rightarrow> error + SessionUsageData list" where
  "parseSessionFileRows E sid mtimeMs entries =
    (case extractProjectPath entries of
       Inl e \<Rightarrow> Inl e
     | Inr projPath \<Rightarrow>
        (case extractSlug entries of
           Inl e \<Rightarrow> Inl e
         | Inr sessName \<Rightarrow>
            (case dedupe_rows E sid mtimeMs sessName projPath entries [] of
               Inl e \<Rightarrow> Inl e
             | Inr deduped \<Rightarrow> Inr (map snd deduped))))"

text \<open>The unit file of the end-to-end scenario: three lines for m1, two for m2.\<close>

definition scenario_entries :: "json list" where
  "scenario_entries =
    [mk_entry ''m1'' ''claude-opus-4-6'' (mk_usage 3 9 17890 1297),
     mk_entry ''m1'' ''claude-opus-4-6'' (mk_usage 3 954 17890 1297),
     mk_entry ''m1'' ''claude-opus-4-6'' (mk_usage 3 954 17890 1297),
     mk_entry ''m2'' ''claude-opus-4-6'' (mk_usage 3 11 19464 1124),
     mk_entry ''m2'' ''claude-opus-4-6'' (mk_usage 3 500 19464 1124)]"

fun fin_val :: "jsnum \<Rightarrow> rat" where
  "fin_val (Fin r) = r"
| "fin_val _ = 0"

section \<open>The activity delta engine\<close>

record ActivityUpdate =
  upd_sessionId :: string
  messageId :: string
  upd_tokens :: usage_tokens
  upd_timestamp :: rat

text \<open>
  The part of \<^verbatim>\<open>activityWatcher\<close> that \<^verbatim>\<open>processJsonlDelta\<close> reads and writes: whether a
  callback is registered, and the byte offset consumed per file.
\<close>

record ActivityWatcherState =
  callback :: bool
  fileOffsets :: "(string \<times> nat) list"

text \<open>\<^verbatim>\<open>toTimestamp\<close> of watcher.ts falls back to the clock.\<close>

definition watcher_toTimestamp :: "env \<Rightarrow> rat \<Rightarrow> json \<Rightarrow> error + rat" where
  "watcher_toTimestamp E now v =
    (if \<not> js_truthy v then Inr now
     else case date_parse E v of
       Inl e \<Rightarrow> Inl e
     | Inr None \<Rightarrow> Inr now
     | Inr (Some parsed) \<Rightarrow> Inr parsed)"

text \<open>\<^verbatim>\<open>chunk.split(/\r?\n/)\<close>.\<close>

fun split_lines :: "string \<Rightarrow> string list" where
  "split_lines [] = [[]]"
| "split_lines [c] = (if c = CHR 0x0A then [[], []] else [[c]])"
| "split_lines (c # d # cs) =
    (if c = CHR 0x0A then [] # split_lines (d # cs)
     else if c = CHR 0x0D \<and> d = CHR 0x0A then [] # split_lines cs
     else (case split_lines (d # cs) of
             [] \<Rightarrow> [[c]]
           | l # ls \<Rightarrow> (c # l) # ls))"

definition ends_with :: "string \<Rightarrow> string \<Rightarrow> bool" where
  "ends_with suffix s = (length suffix \<le> length s \<and> drop (length s - length suffix) s = suffix)"

text \<open>
  \<^verbatim>\<open>path.join(dir, name)\<close> on a directory path without a trailing separator and a
  plain name, and \<^verbatim>\<open>path.basename(p, '.jsonl')\<close>: the last segment of the path without
  the suffix, except that a segment equal to the suffix is kept unless it is the whole
  path.
\<close>

definition path_join :: "string \<Rightarrow> string \<Rightarrow> string" where
  "path_join dir name = dir @ ''/'' @ name"

definition path_basename :: "string \<Rightarrow> string" where
  "path_basename p =
    (let seg = rev (takeWhile (\<lambda>c. c \<noteq> CHR ''/'') (rev p)) in
     if p = ''.jsonl'' then []
     else if seg \<noteq> ''.jsonl'' \<and> ends_with ''.jsonl'' seg then take (length seg - 6) seg
     else seg)"

text \<open>The token object of a delta, built by \<^verbatim>\<open>processJsonlDelta\<close> itself.\<close>

definition delta_tokens :: "json \<Rightarrow> usage_tokens" where
  "delta_tokens entry =
    (let t = \<lparr> input = as_num (get_prop (entry_usage entry) ''input_tokens''),
               output = as_num (get_prop (entry_usage entry) ''output_tokens''),
               cacheRead = None, cacheWrite = None \<rparr>;
         t = (if num_gt0 (as_num (get_prop (entry_usage entry) ''cache_read_input_tokens''))
              then t\<lparr>cacheRead :=
                       Some (as_num (get_prop (entry_usage entry) ''cache_read_input_tokens''))\<rparr>
              else t);
         t = (if num_gt0 (as_num (get_prop (entry_usage entry) ''cache_creation_input_tokens''))
              then t\<lparr>cacheWrite :=
                       Some (as_num (get_prop (entry_usage entry) ''cache_creation_input_tokens''))\<rparr>
              else t)
     in t)"

text \<open>
  The loop over the lines of a chunk: the callbacks made, in order, and the exception
  that ended the loop early, if one did.
\<close>

fun delta_lines ::
  "env \<Rightarrow> rat \<Rightarrow> string \<Rightarrow> string list \<Rightarrow> ActivityUpdate list \<times> error option" where
  "delta_lines E now sid [] = ([], None)"
| "delta_lines E now sid (line # rest) =
    (if js_trim line = [] then delta_lines E now sid rest
     else case json_parse E (js_trim line) of
       None \<Rightarrow> delta_lines E now sid rest
     | Some entry \<Rightarrow>
         if \<not> watcher_isTokenBearingAssistant entry then delta_lines E now sid rest
         else (case watcher_toTimestamp E now (get_prop entry ''timestamp'') of
                 Inl e \<Rightarrow> ([], Some e)
               | Inr ts \<Rightarrow>
                   (\<lparr> upd_sessionId = sid, messageId = entry_message_id entry,
                      upd_tokens = delta_tokens entry, upd_timestamp = ts \<rparr>
                      # fst (delta_lines E now sid rest),
                    snd (delta_lines E now sid rest))))"

definition delta_start_offset :: "nat \<Rightarrow> nat \<Rightarrow> nat" where
  "delta_start_offset fsize knownOffset = (if fsize < knownOffset then 0 else knownOffset)"

definition delta_read_length :: "nat \<Rightarrow> nat \<Rightarrow> int" where
  "delta_read_length fsize startOffset = int fsize - int startOffset"

text \<open>
  The guarded read: \<^verbatim>\<open>Buffer.alloc\<close> raises on a negative length, a failed open or read
  rejects; either way the \<^verbatim>\<open>catch\<close> returns.
\<close>

definition delta_read :: "env \<Rightarrow> string \<Rightarrow> nat \<Rightarrow> int \<Rightarrow> string option" where
  "delta_read E filePath startOffset len =
    (if len < 0 then None else fs_read E filePath startOffset (nat len))"

definition processJsonlDelta ::
  "env \<Rightarrow> rat \<Rightarrow> string \<Rightarrow> ActivityWatcherState
     \<Rightarrow> (ActivityUpdate list \<times> error option) \<times> ActivityWatcherState" where
  "processJsonlDelta E now filePath st =
    (if \<not> callback st then (([], None), st)
     else case fs_stat E filePath of
       None \<Rightarrow> (([], None), st\<lparr>fileOffsets := map_delete filePath (fileOffsets st)\<rparr>)
     | Some (mtimeMs, fsize) \<Rightarrow>
        (let knownOffset = (case map_of (fileOffsets st) filePath of Some k \<Rightarrow> k | None \<Rightarrow> 0);
             startOffset = delta_start_offset fsize knownOffset
         in if fsize = startOffset then (([], None), st)
            else case delta_read E filePath startOffset (delta_read_length fsize startOffset) of
              None \<Rightarrow> (([], None), st)
            | Some chunk \<Rightarrow>
                (delta_lines E now (path_basename filePath) (split_lines chunk),
                 st\<lparr>fileOffsets := map_set filePath fsize (fileOffsets st)\<rparr>)))"

text \<open>
  The omit-if-zero rule for the cache counters of a validated record, as a relation
  between the record and a token object.
\<close>

definition zero_omitted :: "json \<Rightarrow> usage_tokens \<Rightarrow> bool" where
  "zero_omitted entry t =
    (let cr = as_num (get_prop (entry_usage entry) ''cache_read_input_tokens'');
         cw = as_num (get_prop (entry_usage entry) ''cache_creation_input_tokens'')
     in (cr = Fin 0 \<longrightarrow> cacheRead t = None)
      \<and> (cw = Fin 0 \<longrightarrow> cacheWrite t = None)
      \<and> (num_gt0 cr \<longrightarrow> cacheRead t = Some cr)
      \<and> (num_gt0 cw \<longrightarrow> cacheWrite t = Some cw))"

section \<open>Caches, index and watcher state\<close>

record SessionParseOptions =
  opt_sessionId :: "string option"
  opt_limit :: "rat option"
  opt_since :: "rat option"

record SessionCache =
  lastCheck :: rat
  lastResult :: "SessionUsageData list"
  lastLimit :: rat
  lastSince :: "rat option"

record SessionMetadata =
  meta_mtimeMs :: rat
  meta_sessionId :: string

record SessionAggregateCacheEntry =
  updatedAt :: rat
  usageRows :: "SessionUsageData list"
  lastAccessed :: rat

record ParsedSessionFile =
  file_sessionId :: string
  filePath :: string
  file_mtimeMs :: rat

text \<open>
  \<^verbatim>\<open>sessionWatcher\<close>: the watched project directories, whether a root watcher and a
  reconciliation timer are held, the dirty paths (a set, in insertion order), the
  started flag.
\<close>

record SessionWatcherState =
  projectWatchers :: "string list"
  rootWatcher :: bool
  dirtyPaths :: "string list"
  reconciliationTimer :: bool
  started :: bool

text \<open>The module-level state a scan reads and writes.\<close>

record state =
  sessionCache :: SessionCache
  sessionMetadataIndex :: "(string \<times> SessionMetadata) list"
  sessionAggregateCache :: "(string \<times> SessionAggregateCacheEntry) list"
  sessionWatcher :: SessionWatcherState
  forceFullReconciliation :: bool

text \<open>Every call that reaches the file system leaves an event, in order.\<close>

datatype fs_event =
    FsAccess string
  | FsWatch string
  | FsReaddir string
  | FsStat string
  | FsReadFile string

text \<open>
  Modelled from the spec: \<^verbatim>\<open>evictSessionAggregateCache\<close> of cache.ts, which is not among
  the sources (only its test is). Section 4.4: if the entry count exceeds the capacity,
  evict entries in ascending order of last-access time until the count equals the
  capacity; ties are broken by a stable sort; at capacity nothing is evicted; the order
  is recomputed by sorting on each pass.
\<close>

definition evictSessionAggregateCache ::
  "nat \<Rightarrow> (string \<times> SessionAggregateCacheEntry) list
     \<Rightarrow> (string \<times> SessionAggregateCacheEntry) list" where
  "evictSessionAggregateCache capacity cache =
    (if length cache \<le> capacity then cache
     else let victims = take (length cache - capacity)
                          (sort_key (\<lambda>kv. lastAccessed (snd kv)) cache)
          in filter (\<lambda>kv. fst kv \<notin> fst ` set victims) cache)"

section \<open>The dirty-path watcher\<close>

definition consumeForceFullReconciliation :: "state \<Rightarrow> bool \<times> state" where
  "consumeForceFullReconciliation st =
    (forceFullReconciliation st,
     if forceFullReconciliation st then st\<lparr>forceFullReconciliation := False\<rparr> else st)"

definition watchProjectDir ::
  "env \<Rightarrow> string \<Rightarrow> fs_event list \<times> SessionWatcherState
     \<Rightarrow> fs_event list \<times> SessionWatcherState" where
  "watchProjectDir E projectDirPath tw =
    (if projectDirPath \<in> set (projectWatchers (snd tw)) then tw
     else (fst tw @ [FsWatch projectDirPath],
           if fs_watch E projectDirPath
           then (snd tw)\<lparr>projectWatchers := projectWatchers (snd tw) @ [projectDirPath]\<rparr>
           else snd tw))"

text \<open>\<^verbatim>\<open>getProjectDirs\<close> of paths.ts: one listing of the root, empty when it fails.\<close>

definition getProjectDirs :: "env \<Rightarrow> string list" where
  "getProjectDirs E =
    (case fs_readdir E (CLAUDE_CODE_PROJECTS_PATH E) of
       None \<Rightarrow> []
     | Some entries \<Rightarrow>
         map (\<lambda>entry. path_join (CLAUDE_CODE_PROJECTS_PATH E) (fst entry))
           (filter (\<lambda>entry. snd entry = Directory) entries))"

text \<open>
  \<^verbatim>\<open>startSessionWatcher\<close>, as far as it runs before it returns: it arms the root
  watcher, issues the listing of the root (\<^verbatim>\<open>getProjectDirs\<close> is called and not awaited)
  and arms the timer, which sets the reconciliation flag from outside a scan.
\<close>

definition startSessionWatcher ::
  "env \<Rightarrow> fs_event list \<times> SessionWatcherState \<Rightarrow> fs_event list \<times> SessionWatcherState" where
  "startSessionWatcher E tw =
    (if started (snd tw) then tw
     else
       (fst tw @ [FsWatch (CLAUDE_CODE_PROJECTS_PATH E), FsReaddir (CLAUDE_CODE_PROJECTS_PATH E)],
        (snd tw)\<lparr>started := True,
                  rootWatcher := (if fs_watch E (CLAUDE_CODE_PROJECTS_PATH E) then True
                                  else rootWatcher (snd tw)),
                  reconciliationTimer := True\<rparr>))"

text \<open>
  The callback of that listing (\<^verbatim>\<open>.then((dirs) => ...)\<close>) registers a watcher for every
  project directory. It runs once the listing has resolved and the running code has
  yielded, so it is an event of its own, like the watcher callbacks that mark paths
  dirty, and no part of the call that started it: a scan answered from the whole-result
  cache returns before it, and a scan that goes on to list the directories registers
  the same watchers itself.
\<close>

definition startSessionWatcher_listed ::
  "env \<Rightarrow> fs_event list \<times> SessionWatcherState \<Rightarrow> fs_event list \<times> SessionWatcherState" where
  "startSessionWatcher_listed E tw =
    foldl (\<lambda>a dirPath. watchProjectDir E dirPath a) tw (getProjectDirs E)"

section \<open>The scan orchestrator\<close>

text \<open>\<^verbatim>\<open>readJsonlFile\<close> of utils.ts.\<close>

definition readJsonlFile :: "env \<Rightarrow> string \<Rightarrow> json list" where
  "readJsonlFile E p =
    (case fs_readFile E p of
       None \<Rightarrow> []
     | Some content \<Rightarrow>
         List.map_filter
           (\<lambda>line. if js_trim line = [] then None else json_parse E (js_trim line))
           (split_lines content))"

text \<open>A string option is truthy when it is present and not empty.\<close>

definition str_truthy :: "string option \<Rightarrow> bool" where
  "str_truthy v = (case v of None \<Rightarrow> False | Some s \<Rightarrow> s \<noteq> [])"

text \<open>\<^verbatim>\<open>!since || mtimeMs >= since\<close>.\<close>

definition since_ok :: "rat option \<Rightarrow> rat \<Rightarrow> bool" where
  "since_ok since mtimeMs = (case since of None \<Rightarrow> True | Some s \<Rightarrow> s = 0 \<or> s \<le> mtimeMs)"

text \<open>What the two nested loops over directories and their entries carry along.\<close>

record scan_acc =
  sessionFiles :: "ParsedSessionFile list"
  seenFilePaths :: "string list"
  acc_index :: "(string \<times> SessionMetadata) list"
  acc_watcher :: SessionWatcherState
  acc_trace :: "fs_event list"

definition push_file :: "rat option \<Rightarrow> ParsedSessionFile \<Rightarrow> scan_acc \<Rightarrow> scan_acc" where
  "push_file since f acc =
    (if since_ok since (file_mtimeMs f) then acc\<lparr>sessionFiles := sessionFiles acc @ [f]\<rparr>
     else acc)"

text \<open>
  The body of the inner loop, for one directory entry. The index entry is read
  (\<open>the metadata\<close>) only where the source has tested that there is one.
\<close>

definition scan_entry ::
  "env \<Rightarrow> SessionParseOptions \<Rightarrow> string list \<Rightarrow> bool \<Rightarrow> string
     \<Rightarrow> string \<times> dirent_kind \<Rightarrow> scan_acc \<Rightarrow> scan_acc" where
  "scan_entry E options dirty needsFullStat projectDirPath entry acc =
    (if snd entry \<noteq> File \<or> \<not> ends_with ''.jsonl'' (fst entry) then acc
     else if str_truthy (opt_sessionId options)
               \<and> Some (path_basename (fst entry)) \<noteq> opt_sessionId options then acc
     else
       let fp = path_join projectDirPath (fst entry);
           acc1 = acc\<lparr>seenFilePaths := List.insert fp (seenFilePaths acc)\<rparr>;
           metadata = map_of (acc_index acc) fp
       in
         if fp \<notin> set dirty \<and> \<not> needsFullStat \<and> metadata \<noteq> None
         then push_file (opt_since options)
                \<lparr> file_sessionId = meta_sessionId (the metadata), filePath = fp,
                  file_mtimeMs = meta_mtimeMs (the metadata) \<rparr> acc1
         else
           let acc2 = acc1\<lparr>acc_trace := acc_trace acc1 @ [FsStat fp]\<rparr> in
           (case fs_stat E fp of
              None \<Rightarrow> acc2\<lparr>acc_index := map_delete fp (acc_index acc2)\<rparr>
            | Some st \<Rightarrow>
                if metadata \<noteq> None \<and> meta_mtimeMs (the metadata) = fst st
                then push_file (opt_since options)
                       \<lparr> file_sessionId = meta_sessionId (the metadata), filePath = fp,
                         file_mtimeMs = meta_mtimeMs (the metadata) \<rparr> acc2
                else push_file (opt_since options)
                       \<lparr> file_sessionId = path_basename (fst entry), filePath = fp,
                         file_mtimeMs = fst st \<rparr>
                       (acc2\<lparr>acc_index :=
                               map_set fp \<lparr> meta_mtimeMs = fst st,
                                            meta_sessionId = path_basename (fst entry) \<rparr>
                                 (acc_index acc2)\<rparr>)))"

text \<open>The body of the outer loop, for one project directory.\<close>

definition scan_dir ::
  "env \<Rightarrow> SessionParseOptions \<Rightarrow> string list \<Rightarrow> bool \<Rightarrow> scan_acc \<Rightarrow> string \<Rightarrow> scan_acc" where
  "scan_dir E options dirty needsFullStat acc projectDirPath =
    (let tw = watchProjectDir E projectDirPath (acc_trace acc, acc_watcher acc);
         acc1 = acc\<lparr>acc_watcher := snd tw, acc_trace := fst tw @ [FsReaddir projectDirPath]\<rparr>
     in case fs_readdir E projectDirPath of
          None \<Rightarrow> acc1
        | Some entries \<Rightarrow>
            foldl (\<lambda>a entry. scan_entry E options dirty needsFullStat projectDirPath entry a)
              acc1 entries)"

text \<open>
  The loop over the included files: the rows so far, the aggregate cache and the trace;
  an exception of the row builder ends the scan.
\<close>

definition aggregate_hit ::
  "(string \<times> SessionAggregateCacheEntry) list \<Rightarrow> ParsedSessionFile
     \<Rightarrow> SessionAggregateCacheEntry option" where
  "aggregate_hit agg file =
    (case map_of agg (file_sessionId file) of
       None \<Rightarrow> None
     | Some cached \<Rightarrow> if updatedAt cached = file_mtimeMs file then Some cached else None)"

fun load_sessions ::
  "env \<Rightarrow> rat \<Rightarrow> ParsedSessionFile list \<Rightarrow> (string \<times> SessionAggregateCacheEntry) list
     \<Rightarrow> SessionUsageData list \<Rightarrow> fs_event list
     \<Rightarrow> (error + SessionUsageData list) \<times> (string \<times> SessionAggregateCacheEntry) list
          \<times> fs_event list" where
  "load_sessions E now [] agg sessions tr = (Inr sessions, agg, tr)"
| "load_sessions E now (file # rest) agg sessions tr =
    (case aggregate_hit agg file of
       Some cached \<Rightarrow>
         load_sessions E now rest
           (map_set (file_sessionId file) (cached\<lparr>lastAccessed := now\<rparr>) agg)
           (sessions @ usageRows cached) tr
     | None \<Rightarrow>
         (case parseSessionFileRows E (file_sessionId file) (file_mtimeMs file)
                 (readJsonlFile E (filePath file)) of
            Inl e \<Rightarrow> (Inl e, agg, tr @ [FsReadFile (filePath file)])
          | Inr rows \<Rightarrow>
              load_sessions E now rest
                (map_set (file_sessionId file)
                   \<lparr> updatedAt = file_mtimeMs file, usageRows = rows, lastAccessed = now \<rparr>
                   agg)
                (sessions @ rows) (tr @ [FsReadFile (filePath file)])))"

text \<open>\<^verbatim>\<open>options.limit ?? 100\<close>.\<close>

definition effective_limit :: "SessionParseOptions \<Rightarrow> rat" where
  "effective_limit options = (case opt_limit options of None \<Rightarrow> 100 | Some l \<Rightarrow> l)"

text \<open>The condition under which the scan answers from the whole-result cache.\<close>

definition cache_hit :: "env \<Rightarrow> rat \<Rightarrow> SessionParseOptions \<Rightarrow> SessionCache \<Rightarrow> bool" where
  "cache_hit E now options c =
    (\<not> str_truthy (opt_sessionId options)
     \<and> effective_limit options = lastLimit c
     \<and> now - lastCheck c < CACHE_TTL_MS E
     \<and> 0 < length (lastResult c)
     \<and> lastSince c = opt_since options)"

text \<open>
  The scan from the draining of the dirty set on. \<open>now\<close> is the clock read before the
  cache check, \<open>now_end\<close> the one read when the result is stored.
\<close>

definition fresh_scan ::
  "env \<Rightarrow> rat \<Rightarrow> rat \<Rightarrow> SessionParseOptions \<Rightarrow> fs_event list \<Rightarrow> state
     \<Rightarrow> (error + SessionUsageData list) \<times> fs_event list \<times> state" where
  "fresh_scan E now now_end options tr st =
    (let dirty = dirtyPaths (sessionWatcher st);
         st1 = st\<lparr>sessionWatcher := (sessionWatcher st)\<lparr>dirtyPaths := []\<rparr>\<rparr>;
         needsFullStat = fst (consumeForceFullReconciliation st1);
         st2 = snd (consumeForceFullReconciliation st1);
         acc = foldl (scan_dir E options dirty needsFullStat)
                 \<lparr> sessionFiles = [], seenFilePaths = [],
                   acc_index = sessionMetadataIndex st2, acc_watcher = sessionWatcher st2,
                   acc_trace = tr @ [FsReaddir (CLAUDE_CODE_PROJECTS_PATH E)] \<rparr>
                 (getProjectDirs E);
         index = filter (\<lambda>kv. fst kv \<in> set (seenFilePaths acc)) (acc_index acc);
         files = sort_key (\<lambda>f. - file_mtimeMs f) (sessionFiles acc);
         loaded = load_sessions E now files (sessionAggregateCache st2) [] (acc_trace acc);
         st3 = st2\<lparr>sessionMetadataIndex := index, sessionWatcher := acc_watcher acc,
                   sessionAggregateCache := fst (snd loaded)\<rparr>
     in case fst loaded of
          Inl e \<Rightarrow> (Inl e, snd (snd loaded), st3)
        | Inr sessions \<Rightarrow>
            (Inr sessions, snd (snd loaded),
             (let st4 = st3\<lparr>sessionAggregateCache :=
                              evictSessionAggregateCache (SESSION_AGGREGATE_CACHE_MAX E)
                                (sessionAggregateCache st3)\<rparr>
              in if \<not> str_truthy (opt_sessionId options)
                 then st4\<lparr>sessionCache :=
                            \<lparr> lastCheck = now_end, lastResult = sessions,
                              lastLimit = effective_limit options,
                              lastSince = opt_since options \<rparr>\<rparr>
                 else st4)))"

definition parseSessionsFromProjects ::
  "env \<Rightarrow> rat \<Rightarrow> rat \<Rightarrow> SessionParseOptions \<Rightarrow> state
     \<Rightarrow> (error + SessionUsageData list) \<times> fs_event list \<times> state" where
  "parseSessionsFromProjects E now now_end options st =
    (if \<not> fs_access E (CLAUDE_CODE_PROJECTS_PATH E)
     then (Inr [], [FsAccess (CLAUDE_CODE_PROJECTS_PATH E)], st)
     else
       let tw = startSessionWatcher E ([FsAccess (CLAUDE_CODE_PROJECTS_PATH E)], sessionWatcher st);
           st1 = st\<lparr>sessionWatcher := snd tw\<rparr>
       in if cache_hit E now options (sessionCache st1)
          then (Inr (lastResult (sessionCache st1)), fst tw, st1)
          else fresh_scan E now now_end options (fst tw) st1)"

section \<open>A small concrete world\<close>

text \<open>
  One project directory \<^verbatim>\<open>/p/d\<close> with one unit file \<^verbatim>\<open>s1.jsonl\<close> of two lines; the
  line \<^verbatim>\<open>A\<close> decodes to a record for m1, the line \<^verbatim>\<open>B\<close> to a record for m2 whose cache
  counters are zero. The capacity of the aggregate cache is 2, the time to live 2000.
\<close>

definition demo_content :: string where
  "demo_content = [CHR ''A'', CHR 0x0A, CHR ''B'']"

definition demo_env :: env where
  "demo_env =
    \<lparr> CLAUDE_CODE_PROJECTS_PATH = ''/p'', CACHE_TTL_MS = 2000,
      SESSION_AGGREGATE_CACHE_MAX = 2,
      date_parse = (\<lambda>v. Inr None),
      json_parse = (\<lambda>s. if s = ''A'' then Some (mk_entry ''m1'' ''claude'' (mk_usage 3 954 17890 1297))
                         else if s = ''B'' then Some (mk_entry ''m2'' ''claude'' (mk_usage 3 500 0 0))
                         else None),
      fs_access = (\<lambda>p. p = ''/p''),
      fs_readdir = (\<lambda>p. if p = ''/p'' then Some [(''d'', Directory)]
                         else if p = ''/p/d'' then Some [(''s1.jsonl'', File)] else None),
      fs_stat = (\<lambda>p. if p = ''/p/d/s1.jsonl'' then Some (7, 3) else None),
      fs_readFile = (\<lambda>p. if p = ''/p/d/s1.jsonl'' then Some demo_content else None),
      fs_read = (\<lambda>p pos len. if p = ''/p/d/s1.jsonl''
                              then Some (take len (drop pos demo_content)) else None),
      fs_watch = (\<lambda>p. True) \<rparr>"

definition demo_watcher :: SessionWatcherState where
  "demo_watcher = \<lparr> projectWatchers = [], rootWatcher = False, dirtyPaths = [],
                    reconciliationTimer = False, started = False \<rparr>"

text \<open>The state of a process that has not scanned yet, and its whole-result cache.\<close>

definition demo_cache :: SessionCache where
  "demo_cache = \<lparr> lastCheck = 9, lastResult = [], lastLimit = 100, lastSince = None \<rparr>"

definition demo_state :: state where
  "demo_state =
    \<lparr> sessionCache = demo_cache,
      sessionMetadataIndex = [], sessionAggregateCache = [],
      sessionWatcher = demo_watcher, forceFullReconciliation = False \<rparr>"

definition demo_options :: SessionParseOptions where
  "demo_options = \<lparr> opt_sessionId = None, opt_limit = None, opt_since = None \<rparr>"

text \<open>The two rows of the unit file.\<close>

definition demo_row :: "rat \<Rightarrow> usage_tokens \<Rightarrow> SessionUsageData" where
  "demo_row mt t =
    \<lparr> sessionId = ''s1'', providerId = ''anthropic'', modelId = ''claude'', tokens = t,
      timestamp = mt, sessionUpdatedAt = mt, sessionName = None, projectPath = None \<rparr>"

definition demo_rows :: "SessionUsageData list" where
  "demo_rows =
    [demo_row 7 \<lparr> input = Fin 3, output = Fin 954,
                  cacheRead = Some (Fin 17890), cacheWrite = Some (Fin 1297) \<rparr>,
     demo_row 7 \<lparr> input = Fin 3, output = Fin 500, cacheRead = None, cacheWrite = None \<rparr>]"

text \<open>The state that the first global scan of this world at time 10 leaves behind.\<close>

definition demo_state_scanned :: state where
  "demo_state_scanned =
    \<lparr> sessionCache =
        \<lparr> lastCheck = 11, lastResult = demo_rows, lastLimit = 100, lastSince = None \<rparr>,
      sessionMetadataIndex =
        [(''/p/d/s1.jsonl'', \<lparr> meta_mtimeMs = 7, meta_sessionId = ''s1'' \<rparr>)],
      sessionAggregateCache =
        [(''s1'', \<lparr> updatedAt = 7, usageRows = demo_rows, lastAccessed = 10 \<rparr>)],
      sessionWatcher = demo_watcher\<lparr> projectWatchers := [''/p/d''], rootWatcher := True,
                                     reconciliationTimer := True, started := True \<rparr>,
      forceFullReconciliation = False \<rparr>"

text \<open>An aggregate cache of three units, the second inserted being the least recently used.\<close>

definition demo_aggregate :: "(string \<times> SessionAggregateCacheEntry) list" where
  "demo_aggregate =
    [(''a'', \<lparr> updatedAt = 1, usageRows = [], lastAccessed = 30 \<rparr>),
     (''b'', \<lparr> updatedAt = 2, usageRows = [], lastAccessed = 10 \<rparr>),
     (''c'', \<lparr> updatedAt = 3, usageRows = [], lastAccessed = 20 \<rparr>)]"

text \<open>The same world with the projects directory missing: every call on it is rejected.\<close>

definition demo_env_no_root :: env where
  "demo_env_no_root =
    demo_env\<lparr> fs_access := (\<lambda>p. False), fs_readdir := (\<lambda>p. None), fs_stat := (\<lambda>p. None),
              fs_readFile := (\<lambda>p. None), fs_read := (\<lambda>p pos len. None) \<rparr>"

section \<open>Notions the properties are stated with\<close>

text \<open>
  What the two loops over the directories and their entries have collected when they
  end, for a scan that has reached them with the trace \<open>tr\<close> and the state \<open>st\<close>.
\<close>

definition collected :: "env \<Rightarrow> SessionParseOptions \<Rightarrow> fs_event list \<Rightarrow> state \<Rightarrow> scan_acc" where
  "collected E options tr st =
    foldl (scan_dir E options (dirtyPaths (sessionWatcher st)) (forceFullReconciliation st))
      \<lparr> sessionFiles = [], seenFilePaths = [],
        acc_index = sessionMetadataIndex st,
        acc_watcher = (sessionWatcher st)\<lparr>dirtyPaths := []\<rparr>,
        acc_trace = tr @ [FsReaddir (CLAUDE_CODE_PROJECTS_PATH E)] \<rparr>
      (getProjectDirs E)"



text \<open>
  The records a list of lines decodes to (blank and undecodable lines skipped), and
  those of them the delta path accepts.
\<close>

definition decode_lines :: "env \<Rightarrow> string list \<Rightarrow> json list" where
  "decode_lines E ls =
    List.map_filter (\<lambda>line. if js_trim line = [] then None else json_parse E (js_trim line)) ls"

definition accepted_records :: "env \<Rightarrow> string list \<Rightarrow> json list" where
  "accepted_records E ls = filter watcher_isTokenBearingAssistant (decode_lines E ls)"

section \<open>Validator properties\<close>

text \<open>
  C1 (validator parity). For every value, null, undefined, primitives, arrays and
  partially formed records included, the validator of the batch scan path (parser.ts)
  and the validator of the delta path (watcher.ts) return the same boolean.
\<close>

theorem validator_parity:
  "parser_isTokenBearingAssistant v = watcher_isTokenBearingAssistant v"
  unfolding parser_isTokenBearingAssistant_def watcher_isTokenBearingAssistant_def Let_def
  by (rule refl)

theorem validator_parity_witness:
  "watcher_isTokenBearingAssistant (mk_entry ''msg_001'' ''claude-opus-4-6'' (mk_usage 3 954 17890 1297))
   \<and> \<not> watcher_isTokenBearingAssistant (mk_entry ''msg_001'' ''claude-opus-4-6'' (mk_usage 0 954 17890 1297))
   \<and> \<not> watcher_isTokenBearingAssistant JNull"
proof -
  have "parser_isTokenBearingAssistant (mk_entry ''msg_001'' ''claude-opus-4-6'' (mk_usage 3 954 17890 1297))"
    "\<not> parser_isTokenBearingAssistant (mk_entry ''msg_001'' ''claude-opus-4-6'' (mk_usage 0 954 17890 1297))"
    "\<not> parser_isTokenBearingAssistant JNull"
    by (simp_all add: parser_isTokenBearingAssistant_def mk_entry_def mk_usage_def js_trim_def
        is_js_space_def)
  then show ?thesis by (simp only: validator_parity simp_thms)
qed

text \<open>
  C10 (white-space message id). The assistant record with a well-formed type, message,
  model and usage whose message id is the single space is accepted by both validators:
  the id check tests the length only, while the model check trims first, so the same
  record with the single space as its model is rejected.
\<close>

theorem whitespace_message_id_accepted:
  "parser_isTokenBearingAssistant (mk_entry '' '' ''claude-opus-4-6'' (mk_usage 3 954 17890 1297))
   \<and> watcher_isTokenBearingAssistant (mk_entry '' '' ''claude-opus-4-6'' (mk_usage 3 954 17890 1297))
   \<and> \<not> parser_isTokenBearingAssistant (mk_entry ''msg_001'' '' '' (mk_usage 3 954 17890 1297))"
  by (simp add: parser_isTokenBearingAssistant_def watcher_isTokenBearingAssistant_def
      mk_entry_def mk_usage_def js_trim_def is_js_space_def)

theorem whitespace_message_id_accepted_witness:
  "\<exists>v. parser_isTokenBearingAssistant v \<and> watcher_isTokenBearingAssistant v
        \<and> entry_message_id v = '' ''"
proof -
  have "entry_message_id (mk_entry '' '' ''claude-opus-4-6'' (mk_usage 3 954 17890 1297)) = '' ''"
    by (simp add: entry_message_id_def mk_entry_def)
  with whitespace_message_id_accepted show ?thesis by blast
qed

section \<open>Facts about the row builder and the delta loop\<close>

lemma validated_fields:
  assumes "parser_isTokenBearingAssistant e"
  shows "\<exists>i out cw cr mid model.
           get_prop (entry_usage e) ''input_tokens'' = JNum i \<and> \<not> num_le0 i
         \<and> get_prop (entry_usage e) ''output_tokens'' = JNum out
         \<and> get_prop (entry_usage e) ''cache_creation_input_tokens'' = JNum cw
         \<and> get_prop (entry_usage e) ''cache_read_input_tokens'' = JNum cr
         \<and> get_prop (get_prop e ''message'') ''id'' = JStr mid \<and> mid \<noteq> []
         \<and> get_prop (get_prop e ''message'') ''model'' = JStr model \<and> js_trim model \<noteq> []"
proof -
  have t: "\<And>v. js_typeof v = TNumber \<Longrightarrow> \<exists>n. v = JNum n"
    by (case_tac v) auto
  from assms show ?thesis
    unfolding parser_isTokenBearingAssistant_def Let_def entry_usage_def
    by (auto split: if_splits json.splits dest!: t)
qed

lemma set_map_set: "set (map_set k v m) \<subseteq> insert (k, v) (set m)"
  by (induction m) (auto split: if_splits)

lemma map_of_map_set: "map_of (map_set k v m) = (map_of m)(k \<mapsto> v)"
  by (induction m) (auto simp: fun_eq_iff)

lemma map_set_keys: "set (map fst (map_set k v m)) = insert k (set (map fst m))"
  by (simp add: dom_map_of_conv_image_fst[symmetric] map_of_map_set)

lemma distinct_map_set: "distinct (map fst m) \<Longrightarrow> distinct (map fst (map_set k v m))"
proof (induction m)
  case Nil
  then show ?case by simp
next
  case (Cons a m)
  then show ?case using map_set_keys[of k v m] by (cases a) auto
qed

lemma dedupe_rows_distinct:
  "dedupe_rows E sid mt sn pp es d = Inr m \<Longrightarrow> distinct (map fst d) \<Longrightarrow> distinct (map fst m)"
proof (induction es arbitrary: d)
  case Nil
  then show ?case by simp
next
  case (Cons e es)
  then show ?case
    by (auto split: if_splits sum.splits intro: distinct_map_set)
qed

lemma dedupe_rows_last_write:
  "dedupe_rows E sid mt sn pp es d = Inr m \<Longrightarrow>
     map_option tokens (map_of m k)
       = (if filter (\<lambda>e. parser_isTokenBearingAssistant e \<and> entry_message_id e = k) es = []
          then map_option tokens (map_of d k)
          else Some (row_tokens
                 (last (filter (\<lambda>e. parser_isTokenBearingAssistant e \<and> entry_message_id e = k) es))))"
proof (induction es arbitrary: d)
  case Nil
  then show ?case by simp
next
  case (Cons e es)
  show ?case
  proof (cases "parser_isTokenBearingAssistant e")
    case False
    with Cons show ?thesis by simp
  next
    case True
    with Cons.prems obtain ts
      where rec: "dedupe_rows E sid mt sn pp es
                    (map_set (entry_message_id e) (build_row sid mt sn pp e ts) d) = Inr m"
      by (auto split: sum.splits)
    from Cons.IH[OF rec] True show ?thesis
      by (auto simp: map_of_map_set build_row_def)
  qed
qed

lemma dedupe_rows_origin:
  "dedupe_rows E sid mt sn pp es d = Inr m \<Longrightarrow> kr \<in> set m \<Longrightarrow>
     kr \<in> set d \<or> (\<exists>e\<in>set es. parser_isTokenBearingAssistant e \<and> tokens (snd kr) = row_tokens e)"
proof (induction es arbitrary: d)
  case Nil
  then show ?case by simp
next
  case (Cons e es)
  show ?case
  proof (cases "parser_isTokenBearingAssistant e")
    case False
    with Cons show ?thesis by auto
  next
    case True
    with Cons.prems obtain ts
      where rec: "dedupe_rows E sid mt sn pp es
                    (map_set (entry_message_id e) (build_row sid mt sn pp e ts) d) = Inr m"
      by (auto split: sum.splits)
    from Cons.IH[OF rec Cons.prems(2)]
      set_map_set[of "entry_message_id e" "build_row sid mt sn pp e ts" d] True
    show ?thesis by (auto simp: build_row_def)
  qed
qed

lemma row_tokens_zero_omitted: "zero_omitted e (row_tokens e)"
  by (auto simp: zero_omitted_def row_tokens_def Let_def)

lemma delta_tokens_zero_omitted: "zero_omitted e (delta_tokens e)"
  by (auto simp: zero_omitted_def delta_tokens_def Let_def)

lemma delta_lines_origin:
  "u \<in> set (fst (delta_lines E now sid ls)) \<Longrightarrow>
    \<exists>l\<in>set ls. \<exists>e. json_parse E (js_trim l) = Some e \<and> watcher_isTokenBearingAssistant e
       \<and> upd_tokens u = delta_tokens e \<and> messageId u = entry_message_id e"
proof (induction ls)
  case Nil
  then show ?case by simp
next
  case (Cons l ls)
  then show ?case
    by (auto split: if_splits option.splits sum.splits)
qed

lemma scenario_rows:
  "dedupe_rows E sid mt None None scenario_entries [] =
     Inr [(''m1'', build_row sid mt None None
                    (mk_entry ''m1'' ''claude-opus-4-6'' (mk_usage 3 954 17890 1297)) mt),
          (''m2'', build_row sid mt None None
                    (mk_entry ''m2'' ''claude-opus-4-6'' (mk_usage 3 500 19464 1124)) mt)]"
  by (simp add: scenario_entries_def mk_entry_def mk_usage_def
      parser_isTokenBearingAssistant_def js_trim_def is_js_space_def parser_toTimestamp_def
      entry_message_id_def build_row_def row_tokens_def entry_usage_def)

lemma scenario_meta:
  "extractProjectPath scenario_entries = Inr None" "extractSlug scenario_entries = Inr None"
  by (simp_all add: scenario_entries_def mk_entry_def extractSlug_def)

lemma pair_last_wins:
  assumes "parser_isTokenBearingAssistant e1" "parser_isTokenBearingAssistant e2"
    "entry_message_id e1 = entry_message_id e2"
    "parseSessionFileRows E sid mt [e1, e2] = Inr rows"
  shows "\<exists>r. rows = [r] \<and> tokens r = row_tokens e2"
  using assms
  by (auto simp: parseSessionFileRows_def build_row_def split: sum.splits)

section \<open>Facts about the trace of a scan\<close>

lemma push_file_trace [simp]: "acc_trace (push_file since f acc) = acc_trace acc"
  by (simp add: push_file_def)

lemma scan_entry_trace_mono:
  "set (acc_trace acc) \<subseteq> set (acc_trace (scan_entry E options dirty needsFullStat d entry acc))"
  by (auto simp: scan_entry_def Let_def split: option.splits)

lemma scan_entries_trace_mono:
  "set (acc_trace acc) \<subseteq>
     set (acc_trace (foldl (\<lambda>a entry. scan_entry E options dirty needsFullStat d entry a)
                       acc entries))"
proof (induction entries arbitrary: acc)
  case Nil
  show ?case by simp
next
  case (Cons e es)
  from scan_entry_trace_mono[of acc E options dirty needsFullStat d e]
    Cons[of "scan_entry E options dirty needsFullStat d e acc"]
  show ?case by auto
qed

lemma scan_entry_forced_stat:
  assumes "snd entry = File" "ends_with ''.jsonl'' (fst entry)"
    "str_truthy (opt_sessionId options)
       \<longrightarrow> Some (path_basename (fst entry)) = opt_sessionId options"
  shows "FsStat (path_join d (fst entry))
           \<in> set (acc_trace (scan_entry E options dirty True d entry acc))"
  using assms by (auto simp: scan_entry_def Let_def split: option.splits)

lemma scan_entries_forced_stat:
  assumes "entry \<in> set entries" "snd entry = File" "ends_with ''.jsonl'' (fst entry)"
    "str_truthy (opt_sessionId options)
       \<longrightarrow> Some (path_basename (fst entry)) = opt_sessionId options"
  shows "FsStat (path_join d (fst entry))
           \<in> set (acc_trace (foldl (\<lambda>a entry. scan_entry E options dirty True d entry a)
                               acc entries))"
  using assms(1)
proof (induction entries arbitrary: acc)
  case Nil
  then show ?case by simp
next
  case (Cons e es)
  show ?case
  proof (cases "entry = e")
    case True
    have "FsStat (path_join d (fst entry))
            \<in> set (acc_trace (scan_entry E options dirty True d e acc))"
      using scan_entry_forced_stat[OF assms(2,3,4)] True by simp
    then show ?thesis
      using scan_entries_trace_mono[of "scan_entry E options dirty True d e acc"
          E options dirty True d es]
      by auto
  next
    case False
    with Cons.prems have "entry \<in> set es" by simp
    from Cons.IH[OF this] show ?thesis by simp
  qed
qed

lemma watchProjectDir_trace_mono: "set (fst tw) \<subseteq> set (fst (watchProjectDir E p tw))"
  by (auto simp: watchProjectDir_def)

lemma scan_dir_trace_mono:
  "set (acc_trace acc) \<subseteq> set (acc_trace (scan_dir E options dirty needsFullStat acc d))"
proof -
  let ?acc1 = "acc\<lparr>acc_watcher := snd (watchProjectDir E d (acc_trace acc, acc_watcher acc)),
                   acc_trace := fst (watchProjectDir E d (acc_trace acc, acc_watcher acc))
                                  @ [FsReaddir d]\<rparr>"
  have a: "set (acc_trace acc) \<subseteq> set (acc_trace ?acc1)"
    using watchProjectDir_trace_mono[of "(acc_trace acc, acc_watcher acc)" E d] by auto
  show ?thesis
  proof (cases "fs_readdir E d")
    case None
    with a show ?thesis by (simp add: scan_dir_def Let_def)
  next
    case (Some ents)
    with a scan_entries_trace_mono[of ?acc1 E options dirty needsFullStat d ents]
    show ?thesis by (simp add: scan_dir_def Let_def) blast
  qed
qed

lemma scan_dirs_trace_mono:
  "set (acc_trace acc)
     \<subseteq> set (acc_trace (foldl (scan_dir E options dirty needsFullStat) acc dirs))"
proof (induction dirs arbitrary: acc)
  case Nil
  show ?case by simp
next
  case (Cons d ds)
  from scan_dir_trace_mono[of acc E options dirty needsFullStat d]
    Cons[of "scan_dir E options dirty needsFullStat acc d"]
  show ?case by auto
qed

lemma scan_dir_forced_stat:
  assumes "fs_readdir E d = Some entries" "entry \<in> set entries" "snd entry = File"
    "ends_with ''.jsonl'' (fst entry)"
    "str_truthy (opt_sessionId options)
       \<longrightarrow> Some (path_basename (fst entry)) = opt_sessionId options"
  shows "FsStat (path_join d (fst entry))
           \<in> set (acc_trace (scan_dir E options dirty True acc d))"
  using assms(1) scan_entries_forced_stat[OF assms(2,3,4,5)]
  by (simp add: scan_dir_def Let_def)

lemma scan_dirs_forced_stat:
  assumes "d \<in> set dirs" "fs_readdir E d = Some entries" "entry \<in> set entries"
    "snd entry = File" "ends_with ''.jsonl'' (fst entry)"
    "str_truthy (opt_sessionId options)
       \<longrightarrow> Some (path_basename (fst entry)) = opt_sessionId options"
  shows "FsStat (path_join d (fst entry))
           \<in> set (acc_trace (foldl (scan_dir E options dirty True) acc dirs))"
  using assms(1)
proof (induction dirs arbitrary: acc)
  case Nil
  then show ?case by simp
next
  case (Cons x xs)
  show ?case
  proof (cases "d = x")
    case True
    have "FsStat (path_join d (fst entry))
            \<in> set (acc_trace (scan_dir E options dirty True acc x))"
      using scan_dir_forced_stat[OF assms(2,3,4,5,6)] True by simp
    then show ?thesis
      using scan_dirs_trace_mono[of "scan_dir E options dirty True acc x" E options dirty True xs]
      by auto
  next
    case False
    with Cons.prems have "d \<in> set xs" by simp
    from Cons.IH[OF this] show ?thesis by simp
  qed
qed

lemma load_sessions_trace_mono:
  "set tr \<subseteq> set (snd (snd (load_sessions E now files agg sessions tr)))"
proof (induction files arbitrary: agg sessions tr)
  case Nil
  show ?case by simp
next
  case (Cons f fs)
  show ?case
    using Cons[of tr] Cons[of "tr @ [FsReadFile (filePath f)]"]
    by (auto split: option.splits sum.splits)
qed

section \<open>The small world, evaluated\<close>

lemma demo_parse:
  "parseSessionFileRows demo_env ''s1'' 7 (readJsonlFile demo_env ''/p/d/s1.jsonl'') = Inr demo_rows"
  by (simp add: demo_env_def demo_content_def readJsonlFile_def List.map_filter_def js_trim_def
      is_js_space_def parseSessionFileRows_def mk_entry_def mk_usage_def extractSlug_def
      parser_isTokenBearingAssistant_def parser_toTimestamp_def entry_message_id_def
      build_row_def row_tokens_def entry_usage_def demo_rows_def demo_row_def)

lemma demo_dirs: "getProjectDirs demo_env = [''/p/d'']"
  by (simp add: getProjectDirs_def demo_env_def path_join_def)

lemma demo_env_sel:
  "CLAUDE_CODE_PROJECTS_PATH demo_env = ''/p''" "fs_access demo_env ''/p''"
  "CACHE_TTL_MS demo_env = 2000" "SESSION_AGGREGATE_CACHE_MAX demo_env = 2"
  "fs_readdir demo_env ''/p/d'' = Some [(''s1.jsonl'', File)]"
  "fs_stat demo_env ''/p/d/s1.jsonl'' = Some (7, 3)"
  "fs_watch demo_env p"
  by (simp_all add: demo_env_def)

lemma demo_start:
  "startSessionWatcher demo_env ([FsAccess ''/p''], demo_watcher) =
     ([FsAccess ''/p'', FsWatch ''/p'', FsReaddir ''/p''],
      demo_watcher\<lparr> rootWatcher := True, reconciliationTimer := True, started := True \<rparr>)"
  by (simp add: startSessionWatcher_def demo_watcher_def demo_env_sel)

lemma demo_scan_dir:
  "scan_dir demo_env \<lparr> opt_sessionId = None, opt_limit = l, opt_since = None \<rparr> [] force
      \<lparr> sessionFiles = [], seenFilePaths = [], acc_index = [],
        acc_watcher = \<lparr> projectWatchers = [], rootWatcher = rw, dirtyPaths = dp,
                        reconciliationTimer = rt, started = sd \<rparr>,
        acc_trace = tr \<rparr> ''/p/d''
   = \<lparr> sessionFiles = [\<lparr> file_sessionId = ''s1'', filePath = ''/p/d/s1.jsonl'',
                         file_mtimeMs = 7 \<rparr>],
       seenFilePaths = [''/p/d/s1.jsonl''],
       acc_index = [(''/p/d/s1.jsonl'', \<lparr> meta_mtimeMs = 7, meta_sessionId = ''s1'' \<rparr>)],
       acc_watcher = \<lparr> projectWatchers = [''/p/d''], rootWatcher = rw, dirtyPaths = dp,
                       reconciliationTimer = rt, started = sd \<rparr>,
       acc_trace = tr @ [FsWatch ''/p/d'', FsReaddir ''/p/d'', FsStat ''/p/d/s1.jsonl''] \<rparr>"
  by (simp add: scan_dir_def watchProjectDir_def demo_env_sel scan_entry_def ends_with_def
      str_truthy_def path_join_def path_basename_def push_file_def since_ok_def Let_def)

lemma demo_load:
  "load_sessions demo_env now
     [\<lparr> file_sessionId = ''s1'', filePath = ''/p/d/s1.jsonl'', file_mtimeMs = 7 \<rparr>] [] [] tr
    = (Inr demo_rows,
       [(''s1'', \<lparr> updatedAt = 7, usageRows = demo_rows, lastAccessed = now \<rparr>)],
       tr @ [FsReadFile ''/p/d/s1.jsonl''])"
  by (simp add: aggregate_hit_def demo_parse)

lemma demo_fresh:
  "fresh_scan demo_env 10 11 \<lparr> opt_sessionId = None, opt_limit = l, opt_since = None \<rparr>
      [FsAccess ''/p'', FsWatch ''/p'', FsReaddir ''/p'']
      (demo_state\<lparr>sessionWatcher :=
                    demo_watcher\<lparr> rootWatcher := True, reconciliationTimer := True,
                                  started := True \<rparr>\<rparr>)
   = (Inr demo_rows,
      [FsAccess ''/p'', FsWatch ''/p'', FsReaddir ''/p'', FsReaddir ''/p'', FsWatch ''/p/d'',
       FsReaddir ''/p/d'', FsStat ''/p/d/s1.jsonl'', FsReadFile ''/p/d/s1.jsonl''],
      \<lparr> sessionCache =
          \<lparr> lastCheck = 11, lastResult = demo_rows,
            lastLimit = effective_limit \<lparr> opt_sessionId = None, opt_limit = l, opt_since = None \<rparr>,
            lastSince = None \<rparr>,
        sessionMetadataIndex =
          [(''/p/d/s1.jsonl'', \<lparr> meta_mtimeMs = 7, meta_sessionId = ''s1'' \<rparr>)],
        sessionAggregateCache =
          [(''s1'', \<lparr> updatedAt = 7, usageRows = demo_rows, lastAccessed = 10 \<rparr>)],
        sessionWatcher = demo_watcher\<lparr> projectWatchers := [''/p/d''], rootWatcher := True,
                                       reconciliationTimer := True, started := True \<rparr>,
        forceFullReconciliation = False \<rparr>)"
  by (simp add: fresh_scan_def demo_state_def consumeForceFullReconciliation_def demo_dirs
      Let_def demo_env_sel demo_scan_dir demo_watcher_def demo_load
      evictSessionAggregateCache_def str_truthy_def del: load_sessions.simps)

lemma demo_scan:
  "parseSessionsFromProjects demo_env 10 11
      \<lparr> opt_sessionId = None, opt_limit = l, opt_since = None \<rparr> demo_state
   = (Inr demo_rows,
      [FsAccess ''/p'', FsWatch ''/p'', FsReaddir ''/p'', FsReaddir ''/p'', FsWatch ''/p/d'',
       FsReaddir ''/p/d'', FsStat ''/p/d/s1.jsonl'', FsReadFile ''/p/d/s1.jsonl''],
      \<lparr> sessionCache =
          \<lparr> lastCheck = 11, lastResult = demo_rows,
            lastLimit = effective_limit \<lparr> opt_sessionId = None, opt_limit = l, opt_since = None \<rparr>,
            lastSince = None \<rparr>,
        sessionMetadataIndex =
          [(''/p/d/s1.jsonl'', \<lparr> meta_mtimeMs = 7, meta_sessionId = ''s1'' \<rparr>)],
        sessionAggregateCache =
          [(''s1'', \<lparr> updatedAt = 7, usageRows = demo_rows, lastAccessed = 10 \<rparr>)],
        sessionWatcher = demo_watcher\<lparr> projectWatchers := [''/p/d''], rootWatcher := True,
                                       reconciliationTimer := True, started := True \<rparr>,
        forceFullReconciliation = False \<rparr>)"
proof -
  have s: "sessionWatcher demo_state = demo_watcher" "lastResult (sessionCache demo_state) = []"
    by (simp_all add: demo_state_def demo_cache_def)
  show ?thesis
    by (simp add: parseSessionsFromProjects_def demo_env_sel s demo_start cache_hit_def
        Let_def demo_fresh)
qed

section \<open>Facts about the scan\<close>

lemma watchProjectDir_events:
  "ev \<in> set (fst (watchProjectDir E p tw)) \<Longrightarrow> ev \<in> set (fst tw) \<or> (\<exists>q. ev = FsWatch q)"
  by (auto simp: watchProjectDir_def split: if_splits)

lemma watch_dirs_events:
  "ev \<in> set (fst (foldl (\<lambda>a dirPath. watchProjectDir E dirPath a) tw dirs))
     \<Longrightarrow> ev \<in> set (fst tw) \<or> (\<exists>q. ev = FsWatch q)"
proof (induction dirs arbitrary: tw)
  case Nil
  then show ?case by simp
next
  case (Cons d ds)
  from Cons.IH[of "watchProjectDir E d tw"] Cons.prems watchProjectDir_events[of ev E d tw]
  show ?case by auto
qed

lemma startSessionWatcher_events:
  "ev \<in> set (fst (startSessionWatcher E tw)) \<Longrightarrow>
     ev \<in> set (fst tw) \<or> ev = FsReaddir (CLAUDE_CODE_PROJECTS_PATH E) \<or> (\<exists>q. ev = FsWatch q)"
  by (auto simp: startSessionWatcher_def split: if_splits)

lemma scan_entry_limit [simp]:
  "scan_entry E (options\<lparr>opt_limit := l\<rparr>) = scan_entry E options"
proof (intro ext)
  fix dirty needsFullStat d entry acc
  have "opt_sessionId (options\<lparr>opt_limit := l\<rparr>) = opt_sessionId options"
    "opt_since (options\<lparr>opt_limit := l\<rparr>) = opt_since options" by simp_all
  then show "scan_entry E (options\<lparr>opt_limit := l\<rparr>) dirty needsFullStat d entry acc
               = scan_entry E options dirty needsFullStat d entry acc"
    unfolding scan_entry_def by (simp only:)
qed

lemma scan_dir_limit [simp]:
  "scan_dir E (options\<lparr>opt_limit := l\<rparr>) = scan_dir E options"
  unfolding scan_dir_def by (simp only: scan_entry_limit)


lemma fresh_scan_unit_cache:
  assumes "str_truthy (opt_sessionId options)"
  shows "fresh_scan E now now_end options tr (st\<lparr>sessionCache := c\<rparr>)
           = (fst (fresh_scan E now now_end options tr st),
              fst (snd (fresh_scan E now now_end options tr st)),
              (snd (snd (fresh_scan E now now_end options tr st)))\<lparr>sessionCache := c\<rparr>)"
    and "sessionCache (snd (snd (fresh_scan E now now_end options tr st))) = sessionCache st"
  using assms
  by (simp_all add: fresh_scan_def Let_def consumeForceFullReconciliation_def split: sum.splits)

lemma fresh_scan_flag:
  "\<not> forceFullReconciliation (snd (snd (fresh_scan E now now_end options tr st)))"
  by (simp add: fresh_scan_def Let_def consumeForceFullReconciliation_def split: sum.splits)

lemma fresh_scan_forced_stat:
  assumes "forceFullReconciliation st" "d \<in> set (getProjectDirs E)"
    "fs_readdir E d = Some entries" "entry \<in> set entries"
    "snd entry = File" "ends_with ''.jsonl'' (fst entry)"
    "str_truthy (opt_sessionId options)
       \<longrightarrow> Some (path_basename (fst entry)) = opt_sessionId options"
  shows "FsStat (path_join d (fst entry))
           \<in> set (fst (snd (fresh_scan E now now_end options tr st)))"
proof -
  let ?acc = "foldl (scan_dir E options (dirtyPaths (sessionWatcher st)) True)
                 \<lparr> sessionFiles = [], seenFilePaths = [],
                   acc_index = sessionMetadataIndex st,
                   acc_watcher = (sessionWatcher st)\<lparr>dirtyPaths := []\<rparr>,
                   acc_trace = tr @ [FsReaddir (CLAUDE_CODE_PROJECTS_PATH E)] \<rparr>
                 (getProjectDirs E)"
  have "FsStat (path_join d (fst entry)) \<in> set (acc_trace ?acc)"
    by (rule scan_dirs_forced_stat[OF assms(2,3,4,5,6,7)])
  moreover have "set (acc_trace ?acc) \<subseteq> set (snd (snd (load_sessions E now
        (sort_key (\<lambda>f. - file_mtimeMs f) (sessionFiles ?acc)) (sessionAggregateCache st) []
        (acc_trace ?acc))))"
    by (rule load_sessions_trace_mono)
  ultimately show ?thesis
    using assms(1)
    by (auto simp: fresh_scan_def Let_def consumeForceFullReconciliation_def split: sum.splits)
qed

section \<open>The eviction pass\<close>

lemma evict_filter_victims:
  assumes "distinct (map fst c)" "set V \<subseteq> set c"
  shows "filter (\<lambda>kv. fst kv \<notin> fst ` set V) c = filter (\<lambda>kv. kv \<notin> set V) c"
proof (rule filter_cong[OF refl])
  fix kv assume kv: "kv \<in> set c"
  have "fst kv \<in> fst ` set V \<Longrightarrow> kv \<in> set V"
  proof -
    assume "fst kv \<in> fst ` set V"
    then obtain v where v: "v \<in> set V" "fst v = fst kv" by auto
    with assms(2) have "v \<in> set c" by auto
    with kv v(2) assms(1) have "v = kv"
      by (metis eq_key_imp_eq_value prod.collapse)
    with v(1) show "kv \<in> set V" by simp
  qed
  then show "(fst kv \<notin> fst ` set V) = (kv \<notin> set V)" by auto
qed

lemma filter_not_in_prefix:
  "set A \<inter> set B = {} \<Longrightarrow> filter (\<lambda>x. x \<notin> set A) (A @ B) = B"
  by (auto simp: filter_empty_conv filter_id_conv)

lemma filter_not_in_take:
  assumes "distinct S"
  shows "filter (\<lambda>x. x \<notin> set (take k S)) S = drop k S"
proof -
  have "distinct (take k S @ drop k S)" using assms by simp
  then have "set (take k S) \<inter> set (drop k S) = {}" by (simp only: distinct_append)
  from filter_not_in_prefix[OF this] show ?thesis by simp
qed

lemma evict_over_capacity:
  assumes "distinct (map fst c)" "capacity < length c"
  shows "mset (evictSessionAggregateCache capacity c)
           = mset (drop (length c - capacity) (sort_key (\<lambda>kv. lastAccessed (snd kv)) c))"
proof -
  let ?S = "sort_key (\<lambda>kv. lastAccessed (snd kv)) c"
  let ?k = "length c - capacity"
  have dc: "distinct c" using assms(1) by (rule distinct_map[THEN iffD1, THEN conjunct1])
  have sub: "set (take ?k ?S) \<subseteq> set c"
    using set_take_subset[of ?k ?S] by simp
  have "evictSessionAggregateCache capacity c = filter (\<lambda>kv. kv \<notin> set (take ?k ?S)) c"
    using assms(2) evict_filter_victims[OF assms(1) sub]
    by (simp add: evictSessionAggregateCache_def Let_def)
  then have "mset (evictSessionAggregateCache capacity c)
               = filter_mset (\<lambda>kv. kv \<notin> set (take ?k ?S)) (mset c)" by simp
  also have "mset c = mset ?S" by simp
  also have "filter_mset (\<lambda>kv. kv \<notin> set (take ?k ?S)) (mset ?S)
               = mset (filter (\<lambda>kv. kv \<notin> set (take ?k ?S)) ?S)" by simp
  also have "filter (\<lambda>kv. kv \<notin> set (take ?k ?S)) ?S = drop ?k ?S"
    using dc by (intro filter_not_in_take) simp
  finally show ?thesis .
qed

text \<open>
  C4 (eviction boundary). A pass over a cache of exactly \<open>capacity\<close> entries changes
  nothing. A pass over a cache of \<open>capacity + k\<close> entries with \<open>k > 0\<close> (the keys of a
  map are distinct) leaves exactly \<open>capacity\<close> entries and removes exactly \<open>k\<close>: the
  cache splits into the survivors and \<open>k\<close> removed entries, and no removed entry was
  accessed later than any survivor. This holds for every order of the entries, that is,
  for every insertion order.
\<close>

theorem eviction_boundary:
  "(length c = capacity \<longrightarrow> evictSessionAggregateCache capacity c = c)
   \<and> (distinct (map fst c) \<and> length c = capacity + k \<and> 0 < k \<longrightarrow>
        length (evictSessionAggregateCache capacity c) = capacity
        \<and> (\<exists>removed. mset c = mset (evictSessionAggregateCache capacity c) + mset removed
              \<and> length removed = k
              \<and> (\<forall>r\<in>set removed. \<forall>e\<in>set (evictSessionAggregateCache capacity c).
                    lastAccessed (snd r) \<le> lastAccessed (snd e))))"
proof (intro conjI impI)
  assume "length c = capacity"
  then show "evictSessionAggregateCache capacity c = c"
    by (simp add: evictSessionAggregateCache_def)
next
  assume a: "distinct (map fst c) \<and> length c = capacity + k \<and> 0 < k"
  let ?S = "sort_key (\<lambda>kv. lastAccessed (snd kv)) c"
  have k: "length c - capacity = k" and over: "capacity < length c" using a by simp_all
  have m: "mset (evictSessionAggregateCache capacity c) = mset (drop k ?S)"
    using evict_over_capacity[of c capacity] a k by simp
  from m have "length (evictSessionAggregateCache capacity c) = length (drop k ?S)"
    by (rule mset_eq_length)
  then show len: "length (evictSessionAggregateCache capacity c) = capacity"
    using a by simp
  have split: "mset c = mset (evictSessionAggregateCache capacity c) + mset (take k ?S)"
  proof -
    have "mset c = mset (take k ?S @ drop k ?S)" by simp
    then show ?thesis using m by (simp only: mset_append add.commute)
  qed
  have lk: "length (take k ?S) = k" using a by simp
  have "sorted (map (\<lambda>kv. lastAccessed (snd kv)) (take k ?S @ drop k ?S))"
    by simp
  then have ord: "\<forall>r\<in>set (take k ?S). \<forall>e\<in>set (drop k ?S).
                    lastAccessed (snd r) \<le> lastAccessed (snd e)"
    unfolding map_append sorted_append by auto
  have "set (evictSessionAggregateCache capacity c) = set (drop k ?S)"
    using m by (rule mset_eq_setD)
  with ord have "\<forall>r\<in>set (take k ?S). \<forall>e\<in>set (evictSessionAggregateCache capacity c).
                    lastAccessed (snd r) \<le> lastAccessed (snd e)" by simp
  with split lk
  show "\<exists>removed. mset c = mset (evictSessionAggregateCache capacity c) + mset removed
              \<and> length removed = k
              \<and> (\<forall>r\<in>set removed. \<forall>e\<in>set (evictSessionAggregateCache capacity c).
                    lastAccessed (snd r) \<le> lastAccessed (snd e))"
    by blast
qed

theorem eviction_boundary_witness:
  "distinct (map fst demo_aggregate) \<and> length demo_aggregate = 2 + 1
   \<and> evictSessionAggregateCache 3 demo_aggregate = demo_aggregate
   \<and> length (evictSessionAggregateCache 2 demo_aggregate) = 2
   \<and> map fst (evictSessionAggregateCache 2 demo_aggregate) = [''a'', ''c'']"
proof -
  have h: "distinct (map fst demo_aggregate)" "length demo_aggregate = 2 + 1"
    "length demo_aggregate = 3"
    by (simp_all add: demo_aggregate_def)
  from eviction_boundary[of demo_aggregate 3] h(3)
  have a: "evictSessionAggregateCache 3 demo_aggregate = demo_aggregate" by blast
  from eviction_boundary[of demo_aggregate 2 1] h(1,2)
  have b: "length (evictSessionAggregateCache 2 demo_aggregate) = 2" by simp
  have c: "map fst (evictSessionAggregateCache 2 demo_aggregate) = [''a'', ''c'']"
    by (simp add: evictSessionAggregateCache_def demo_aggregate_def)
  from h a b c show ?thesis by blast
qed

section \<open>Properties of the row builder and the delta engine\<close>

text \<open>
  C5 (end-to-end scenario, last write wins). On the unit file with three lines for m1
  and two for m2 the row builder returns exactly two rows, the one stored under m1 with
  input 3, output 954, cacheRead 17890, cacheWrite 1297, the one under m2 with input 3,
  output 500, cacheRead 19464, cacheWrite 1124, and the inputs add up to 6. In general,
  two validated records with the same message id give one row, which carries the
  counters of the second record; and for any sequence of entries the map of rows has
  each message id once, and the row under an id carries the counters of the last
  validated record with that id.
\<close>

theorem row_builder_scenario:
  "(\<exists>r1 r2. dedupe_rows E sid mt None None scenario_entries [] = Inr [(''m1'', r1), (''m2'', r2)]
      \<and> parseSessionFileRows E sid mt scenario_entries = Inr [r1, r2]
      \<and> tokens r1 = \<lparr> input = Fin 3, output = Fin 954,
                      cacheRead = Some (Fin 17890), cacheWrite = Some (Fin 1297) \<rparr>
      \<and> tokens r2 = \<lparr> input = Fin 3, output = Fin 500,
                      cacheRead = Some (Fin 19464), cacheWrite = Some (Fin 1124) \<rparr>
      \<and> fin_val (input (tokens r1)) + fin_val (input (tokens r2)) = 6)
   \<and> (\<forall>e1 e2 rows.
        parser_isTokenBearingAssistant e1 \<and> parser_isTokenBearingAssistant e2
        \<and> entry_message_id e1 = entry_message_id e2
        \<and> parseSessionFileRows E sid mt [e1, e2] = Inr rows
        \<longrightarrow> (\<exists>r. rows = [r] \<and> tokens r = row_tokens e2
                 \<and> output (tokens r) = as_num (get_prop (entry_usage e2) ''output_tokens'')))
   \<and> (\<forall>entries sn pp m k.
        dedupe_rows E sid mt sn pp entries [] = Inr m
        \<longrightarrow> distinct (map fst m)
          \<and> map_option tokens (map_of m k)
              = (if filter (\<lambda>e. parser_isTokenBearingAssistant e \<and> entry_message_id e = k)
                      entries = []
                 then None
                 else Some (row_tokens
                        (last (filter (\<lambda>e. parser_isTokenBearingAssistant e
                                           \<and> entry_message_id e = k) entries)))))"
proof (intro conjI allI impI)
  show "\<exists>r1 r2. dedupe_rows E sid mt None None scenario_entries [] = Inr [(''m1'', r1), (''m2'', r2)]
      \<and> parseSessionFileRows E sid mt scenario_entries = Inr [r1, r2]
      \<and> tokens r1 = \<lparr> input = Fin 3, output = Fin 954,
                      cacheRead = Some (Fin 17890), cacheWrite = Some (Fin 1297) \<rparr>
      \<and> tokens r2 = \<lparr> input = Fin 3, output = Fin 500,
                      cacheRead = Some (Fin 19464), cacheWrite = Some (Fin 1124) \<rparr>
      \<and> fin_val (input (tokens r1)) + fin_val (input (tokens r2)) = 6"
    by (simp add: parseSessionFileRows_def scenario_meta scenario_rows build_row_def
        row_tokens_def entry_usage_def mk_entry_def mk_usage_def)
next
  fix e1 e2 rows
  assume "parser_isTokenBearingAssistant e1 \<and> parser_isTokenBearingAssistant e2
        \<and> entry_message_id e1 = entry_message_id e2
        \<and> parseSessionFileRows E sid mt [e1, e2] = Inr rows"
  then obtain r where "rows = [r]" "tokens r = row_tokens e2"
    using pair_last_wins[of e1 e2 E sid mt rows] by blast
  then show "\<exists>r. rows = [r] \<and> tokens r = row_tokens e2
                 \<and> output (tokens r) = as_num (get_prop (entry_usage e2) ''output_tokens'')"
    by (simp add: row_tokens_def Let_def)
next
  fix entries sn pp m k
  assume d: "dedupe_rows E sid mt sn pp entries [] = Inr m"
  from dedupe_rows_distinct[OF d] show "distinct (map fst m)" by simp
  from dedupe_rows_last_write[OF d, of k]
  show "map_option tokens (map_of m k)
              = (if filter (\<lambda>e. parser_isTokenBearingAssistant e \<and> entry_message_id e = k)
                      entries = []
                 then None
                 else Some (row_tokens
                        (last (filter (\<lambda>e. parser_isTokenBearingAssistant e
                                           \<and> entry_message_id e = k) entries))))"
    by simp
qed

theorem row_builder_scenario_witness:
  "\<exists>r. parseSessionFileRows demo_env ''s1'' 7
          [mk_entry ''m1'' ''claude'' (mk_usage 3 9 17890 1297),
           mk_entry ''m1'' ''claude'' (mk_usage 3 954 17890 1297)] = Inr [r]
        \<and> output (tokens r) = Fin 954"
proof -
  let ?e1 = "mk_entry ''m1'' ''claude'' (mk_usage 3 9 17890 1297)"
  let ?e2 = "mk_entry ''m1'' ''claude'' (mk_usage 3 954 17890 1297)"
  have v: "parser_isTokenBearingAssistant ?e1" "parser_isTokenBearingAssistant ?e2"
    "entry_message_id ?e1 = entry_message_id ?e2"
    by (simp_all add: parser_isTokenBearingAssistant_def mk_entry_def mk_usage_def js_trim_def
        is_js_space_def entry_message_id_def)
  obtain rows where rows: "parseSessionFileRows demo_env ''s1'' 7 [?e1, ?e2] = Inr rows"
    by (simp add: parseSessionFileRows_def extractSlug_def mk_entry_def mk_usage_def
        parser_isTokenBearingAssistant_def js_trim_def is_js_space_def parser_toTimestamp_def)
  from row_builder_scenario[of demo_env "''s1''" 7] v rows
  obtain r where "rows = [r]"
    "output (tokens r) = as_num (get_prop (entry_usage ?e2) ''output_tokens'')"
    by blast
  with rows show ?thesis
    by (simp add: entry_usage_def mk_entry_def mk_usage_def)
qed

text \<open>
  C8 (truncation recovery). For every file size reported by stat and every recorded
  offset: when the size is below the offset the read starts at zero; the computed read
  length, size minus start, is never negative, so the guarded read is the plain read of
  that range; and a file that shrank and is not empty is read whole, from offset zero,
  after which its offset is its size.
\<close>

theorem truncation_recovery:
  "(fsize < knownOffset \<longrightarrow> delta_start_offset fsize knownOffset = 0)
   \<and> 0 \<le> delta_read_length fsize (delta_start_offset fsize knownOffset)
   \<and> delta_read E p (delta_start_offset fsize knownOffset)
         (delta_read_length fsize (delta_start_offset fsize knownOffset))
       = fs_read E p (delta_start_offset fsize knownOffset)
           (fsize - delta_start_offset fsize knownOffset)
   \<and> (callback st \<and> fs_stat E p = Some (mtimeMs, fsize)
        \<and> map_of (fileOffsets st) p = Some knownOffset \<and> fsize < knownOffset \<and> 0 < fsize
        \<and> fs_read E p 0 fsize = Some chunk
      \<longrightarrow> processJsonlDelta E now p st
            = (delta_lines E now (path_basename p) (split_lines chunk),
               st\<lparr>fileOffsets := map_set p fsize (fileOffsets st)\<rparr>))"
  by (auto simp: delta_start_offset_def delta_read_length_def delta_read_def
      processJsonlDelta_def Let_def nat_diff_distrib')

theorem truncation_recovery_witness:
  "delta_start_offset 3 10 = 0 \<and> delta_read_length 3 (delta_start_offset 3 10) = 3
   \<and> map messageId
       (fst (fst (processJsonlDelta demo_env 12 ''/p/d/s1.jsonl''
                    \<lparr> callback = True, fileOffsets = [(''/p/d/s1.jsonl'', 10)] \<rparr>)))
       = [''m1'', ''m2'']
   \<and> fileOffsets (snd (processJsonlDelta demo_env 12 ''/p/d/s1.jsonl''
                    \<lparr> callback = True, fileOffsets = [(''/p/d/s1.jsonl'', 10)] \<rparr>))
       = [(''/p/d/s1.jsonl'', 3)]"
proof -
  let ?st = "\<lparr> callback = True, fileOffsets = [(''/p/d/s1.jsonl'', 10::nat)] \<rparr>"
  have h: "callback ?st" "fs_stat demo_env ''/p/d/s1.jsonl'' = Some (7, 3)"
    "map_of (fileOffsets ?st) ''/p/d/s1.jsonl'' = Some 10" "(3::nat) < 10" "(0::nat) < 3"
    "fs_read demo_env ''/p/d/s1.jsonl'' 0 3 = Some demo_content"
    by (simp_all add: demo_env_def demo_content_def)
  note t = truncation_recovery[of 3 10 demo_env "''/p/d/s1.jsonl''" ?st 7 demo_content 12]
  from t have a: "delta_start_offset 3 10 = 0" by simp
  from t h have c: "processJsonlDelta demo_env 12 ''/p/d/s1.jsonl'' ?st
            = (delta_lines demo_env 12 (path_basename ''/p/d/s1.jsonl'') (split_lines demo_content),
               ?st\<lparr>fileOffsets := map_set ''/p/d/s1.jsonl'' 3 (fileOffsets ?st)\<rparr>)"
    by blast
  have d: "map messageId (fst (delta_lines demo_env 12 (path_basename ''/p/d/s1.jsonl'')
                                 (split_lines demo_content))) = [''m1'', ''m2'']"
    by (simp add: demo_content_def demo_env_def mk_entry_def mk_usage_def
        watcher_isTokenBearingAssistant_def js_trim_def is_js_space_def
        watcher_toTimestamp_def entry_message_id_def)
  from a c d show ?thesis
    by (simp add: delta_read_length_def)
qed

section \<open>Properties of the scan orchestrator\<close>

text \<open>
  C2 (whole-result cache gating), as the code has it. The claim as written fails: the
  scan first checks that the root directory is accessible, and it does not answer from
  an empty cached result. What holds: for a scan with no single-unit filter whose root
  directory is accessible, if the limit equals the cached limit, the since filter equals
  the cached one, the time since the last check is below the time to live and the
  cached result is not empty, then the scan returns the cached result and changes
  nothing but the watcher it may have to start; the file system is touched only by the
  root access check and, when the watcher was not running, by its start (a listing of
  the root and watch registrations), so no unit file is stat'd or read; with a running
  watcher the access check is the only event and the state is unchanged. For a scan
  with a non-empty single-unit filter the whole-result cache is not written, and the
  result, the trace and the rest of the state do not depend on what the cache holds.
\<close>

theorem whole_result_cache_gating:
  "(\<not> str_truthy (opt_sessionId options) \<and> fs_access E (CLAUDE_CODE_PROJECTS_PATH E)
      \<and> effective_limit options = lastLimit (sessionCache st)
      \<and> lastSince (sessionCache st) = opt_since options
      \<and> now - lastCheck (sessionCache st) < CACHE_TTL_MS E
      \<and> lastResult (sessionCache st) \<noteq> []
     \<longrightarrow> fst (parseSessionsFromProjects E now now_end options st)
           = Inr (lastResult (sessionCache st))
         \<and> snd (snd (parseSessionsFromProjects E now now_end options st))
           = st\<lparr>sessionWatcher :=
                  snd (startSessionWatcher E
                         ([FsAccess (CLAUDE_CODE_PROJECTS_PATH E)], sessionWatcher st))\<rparr>
         \<and> (\<forall>ev\<in>set (fst (snd (parseSessionsFromProjects E now now_end options st))).
               ev = FsAccess (CLAUDE_CODE_PROJECTS_PATH E)
               \<or> ev = FsReaddir (CLAUDE_CODE_PROJECTS_PATH E) \<or> (\<exists>q. ev = FsWatch q))
         \<and> (started (sessionWatcher st) \<longrightarrow>
               snd (parseSessionsFromProjects E now now_end options st)
                 = ([FsAccess (CLAUDE_CODE_PROJECTS_PATH E)], st)))
   \<and> (str_truthy (opt_sessionId options)
     \<longrightarrow> sessionCache (snd (snd (parseSessionsFromProjects E now now_end options st)))
           = sessionCache st
         \<and> parseSessionsFromProjects E now now_end options (st\<lparr>sessionCache := c\<rparr>)
           = (fst (parseSessionsFromProjects E now now_end options st),
              fst (snd (parseSessionsFromProjects E now now_end options st)),
              (snd (snd (parseSessionsFromProjects E now now_end options st)))
                \<lparr>sessionCache := c\<rparr>))"
proof (intro conjI impI)
  assume a: "\<not> str_truthy (opt_sessionId options) \<and> fs_access E (CLAUDE_CODE_PROJECTS_PATH E)
      \<and> effective_limit options = lastLimit (sessionCache st)
      \<and> lastSince (sessionCache st) = opt_since options
      \<and> now - lastCheck (sessionCache st) < CACHE_TTL_MS E
      \<and> lastResult (sessionCache st) \<noteq> []"
  let ?tw = "startSessionWatcher E ([FsAccess (CLAUDE_CODE_PROJECTS_PATH E)], sessionWatcher st)"
  from a have hit: "cache_hit E now options (sessionCache st)"
    by (simp add: cache_hit_def)
  with a have p: "parseSessionsFromProjects E now now_end options st
                   = (Inr (lastResult (sessionCache st)), fst ?tw, st\<lparr>sessionWatcher := snd ?tw\<rparr>)"
    by (simp add: parseSessionsFromProjects_def Let_def)
  from p show "fst (parseSessionsFromProjects E now now_end options st)
           = Inr (lastResult (sessionCache st))" by simp
  from p show "snd (snd (parseSessionsFromProjects E now now_end options st))
           = st\<lparr>sessionWatcher := snd ?tw\<rparr>" by simp
  show "\<forall>ev\<in>set (fst (snd (parseSessionsFromProjects E now now_end options st))).
               ev = FsAccess (CLAUDE_CODE_PROJECTS_PATH E)
               \<or> ev = FsReaddir (CLAUDE_CODE_PROJECTS_PATH E) \<or> (\<exists>q. ev = FsWatch q)"
  proof
    fix ev assume "ev \<in> set (fst (snd (parseSessionsFromProjects E now now_end options st)))"
    with p have "ev \<in> set (fst ?tw)" by simp
    from startSessionWatcher_events[OF this]
    show "ev = FsAccess (CLAUDE_CODE_PROJECTS_PATH E)
               \<or> ev = FsReaddir (CLAUDE_CODE_PROJECTS_PATH E) \<or> (\<exists>q. ev = FsWatch q)"
      by auto
  qed
  {
    assume "started (sessionWatcher st)"
    then have "?tw = ([FsAccess (CLAUDE_CODE_PROJECTS_PATH E)], sessionWatcher st)"
      by (simp add: startSessionWatcher_def)
    with p show "snd (parseSessionsFromProjects E now now_end options st)
                 = ([FsAccess (CLAUDE_CODE_PROJECTS_PATH E)], st)" by simp
  }
next
  assume u: "str_truthy (opt_sessionId options)"
  then have miss: "\<And>c'. \<not> cache_hit E now options c'" by (simp add: cache_hit_def)
  from u miss show "sessionCache (snd (snd (parseSessionsFromProjects E now now_end options st)))
           = sessionCache st"
    by (simp add: parseSessionsFromProjects_def Let_def fresh_scan_unit_cache(2))
  have sw: "\<And>w. st\<lparr>sessionCache := c, sessionWatcher := w\<rparr>
                = st\<lparr>sessionWatcher := w, sessionCache := c\<rparr>" by simp
  from u miss show "parseSessionsFromProjects E now now_end options (st\<lparr>sessionCache := c\<rparr>)
           = (fst (parseSessionsFromProjects E now now_end options st),
              fst (snd (parseSessionsFromProjects E now now_end options st)),
              (snd (snd (parseSessionsFromProjects E now now_end options st)))
                \<lparr>sessionCache := c\<rparr>)"
    by (simp add: parseSessionsFromProjects_def Let_def sw fresh_scan_unit_cache(1))
qed

theorem whole_result_cache_gating_witness:
  "parseSessionsFromProjects demo_env 12 13 demo_options demo_state_scanned
     = (Inr demo_rows, [FsAccess ''/p''], demo_state_scanned)
   \<and> sessionCache (snd (snd (parseSessionsFromProjects demo_env 12 13
                               (demo_options\<lparr>opt_sessionId := Some ''s1''\<rparr>) demo_state_scanned)))
     = sessionCache demo_state_scanned"
proof -
  have h: "\<not> str_truthy (opt_sessionId demo_options)"
    "fs_access demo_env (CLAUDE_CODE_PROJECTS_PATH demo_env)"
    "effective_limit demo_options = lastLimit (sessionCache demo_state_scanned)"
    "lastSince (sessionCache demo_state_scanned) = opt_since demo_options"
    "12 - lastCheck (sessionCache demo_state_scanned) < CACHE_TTL_MS demo_env"
    "lastResult (sessionCache demo_state_scanned) \<noteq> []"
    "started (sessionWatcher demo_state_scanned)"
    by (simp_all add: demo_options_def str_truthy_def demo_env_sel effective_limit_def
        demo_state_scanned_def demo_rows_def demo_watcher_def)
  have r: "lastResult (sessionCache demo_state_scanned) = demo_rows"
    "CLAUDE_CODE_PROJECTS_PATH demo_env = ''/p''"
    by (simp_all add: demo_state_scanned_def demo_env_sel)
  note t = whole_result_cache_gating[of demo_options demo_env demo_state_scanned 12 13]
  from t h have a: "fst (parseSessionsFromProjects demo_env 12 13 demo_options demo_state_scanned)
                      = Inr (lastResult (sessionCache demo_state_scanned))"
    and b: "snd (parseSessionsFromProjects demo_env 12 13 demo_options demo_state_scanned)
              = ([FsAccess (CLAUDE_CODE_PROJECTS_PATH demo_env)], demo_state_scanned)"
    by blast+
  have u: "str_truthy (opt_sessionId (demo_options\<lparr>opt_sessionId := Some ''s1''\<rparr>))"
    by (simp add: str_truthy_def)
  from whole_result_cache_gating[of "demo_options\<lparr>opt_sessionId := Some ''s1''\<rparr>" demo_env
      demo_state_scanned 12 13] u
  have c: "sessionCache (snd (snd (parseSessionsFromProjects demo_env 12 13
                               (demo_options\<lparr>opt_sessionId := Some ''s1''\<rparr>) demo_state_scanned)))
     = sessionCache demo_state_scanned" by blast
  from a b r have "parseSessionsFromProjects demo_env 12 13 demo_options demo_state_scanned
     = (Inr demo_rows, [FsAccess ''/p''], demo_state_scanned)"
    by (metis prod.collapse)
  with c show ?thesis by blast
qed

text \<open>
  The claim C2 as written fails in the small world: no filter, the limit and the since
  filter equal to the cached ones, one millisecond after the last check, yet the cached
  (empty) result is not what the scan returns, and the unit file is stat'd and read.
\<close>

theorem whole_result_cache_counterexample:
  "\<not> str_truthy (opt_sessionId demo_options)
   \<and> effective_limit demo_options = lastLimit (sessionCache demo_state)
   \<and> opt_since demo_options = lastSince (sessionCache demo_state)
   \<and> 10 - lastCheck (sessionCache demo_state) < CACHE_TTL_MS demo_env
   \<and> fst (parseSessionsFromProjects demo_env 10 11 demo_options demo_state)
       \<noteq> Inr (lastResult (sessionCache demo_state))
   \<and> FsStat ''/p/d/s1.jsonl''
       \<in> set (fst (snd (parseSessionsFromProjects demo_env 10 11 demo_options demo_state)))
   \<and> FsReadFile ''/p/d/s1.jsonl''
       \<in> set (fst (snd (parseSessionsFromProjects demo_env 10 11 demo_options demo_state)))"
  by (simp add: demo_options_def demo_scan)
    (simp add: str_truthy_def effective_limit_def demo_state_def demo_cache_def demo_env_sel
      demo_rows_def)

text \<open>
  C6 (one-shot reconciliation flag). \<^verbatim>\<open>consumeForceFullReconciliation\<close> returns the
  current flag and leaves it false. In a scan that gets as far as consuming the flag
  (the root is accessible and the whole-result cache does not answer) with the flag set,
  the flag is false afterwards and every candidate file, that is every entry of a listed
  project directory that is a file, ends in .jsonl and passes the single-unit filter, is
  stat'd, whatever the dirty set and the metadata index hold.
\<close>

theorem reconciliation_flag_one_shot:
  "fst (consumeForceFullReconciliation st) = forceFullReconciliation st
   \<and> \<not> forceFullReconciliation (snd (consumeForceFullReconciliation st))
   \<and> (forceFullReconciliation st \<and> fs_access E (CLAUDE_CODE_PROJECTS_PATH E)
        \<and> \<not> cache_hit E now options (sessionCache st)
      \<longrightarrow> \<not> forceFullReconciliation (snd (snd (parseSessionsFromProjects E now now_end options st)))
          \<and> (\<forall>d\<in>set (getProjectDirs E). \<forall>entries. fs_readdir E d = Some entries \<longrightarrow>
               (\<forall>entry\<in>set entries.
                  snd entry = File \<and> ends_with ''.jsonl'' (fst entry)
                  \<and> (str_truthy (opt_sessionId options)
                       \<longrightarrow> Some (path_basename (fst entry)) = opt_sessionId options)
                  \<longrightarrow> FsStat (path_join d (fst entry))
                        \<in> set (fst (snd (parseSessionsFromProjects E now now_end options st))))))"
proof (intro conjI impI ballI allI)
  show "fst (consumeForceFullReconciliation st) = forceFullReconciliation st"
    by (simp add: consumeForceFullReconciliation_def)
  show "\<not> forceFullReconciliation (snd (consumeForceFullReconciliation st))"
    by (simp add: consumeForceFullReconciliation_def)
next
  assume a: "forceFullReconciliation st \<and> fs_access E (CLAUDE_CODE_PROJECTS_PATH E)
        \<and> \<not> cache_hit E now options (sessionCache st)"
  then show "\<not> forceFullReconciliation (snd (snd (parseSessionsFromProjects E now now_end options st)))"
    by (simp add: parseSessionsFromProjects_def Let_def fresh_scan_flag)
next
  fix d entries entry
  assume a: "forceFullReconciliation st \<and> fs_access E (CLAUDE_CODE_PROJECTS_PATH E)
        \<and> \<not> cache_hit E now options (sessionCache st)"
    and d: "d \<in> set (getProjectDirs E)" and l: "fs_readdir E d = Some entries"
    and e: "entry \<in> set entries"
    and c: "snd entry = File \<and> ends_with ''.jsonl'' (fst entry)
                  \<and> (str_truthy (opt_sessionId options)
                       \<longrightarrow> Some (path_basename (fst entry)) = opt_sessionId options)"
  let ?tw = "startSessionWatcher E ([FsAccess (CLAUDE_CODE_PROJECTS_PATH E)], sessionWatcher st)"
  have f: "forceFullReconciliation (st\<lparr>sessionWatcher := snd ?tw\<rparr>)" using a by simp
  from c have c1: "snd entry = File" and c2: "ends_with ''.jsonl'' (fst entry)"
    and c3: "str_truthy (opt_sessionId options)
               \<longrightarrow> Some (path_basename (fst entry)) = opt_sessionId options"
    by blast+
  from fresh_scan_forced_stat[OF f d l e c1 c2 c3, of now now_end "fst ?tw"] a
  show "FsStat (path_join d (fst entry))
          \<in> set (fst (snd (parseSessionsFromProjects E now now_end options st)))"
    by (simp add: parseSessionsFromProjects_def Let_def)
qed

theorem reconciliation_flag_one_shot_witness:
  "fst (consumeForceFullReconciliation (demo_state_scanned\<lparr>forceFullReconciliation := True\<rparr>))
   \<and> FsStat ''/p/d/s1.jsonl''
       \<in> set (fst (snd (parseSessionsFromProjects demo_env 5000 5001 demo_options
                          (demo_state_scanned\<lparr>forceFullReconciliation := True\<rparr>))))
   \<and> \<not> forceFullReconciliation
         (snd (snd (parseSessionsFromProjects demo_env 5000 5001 demo_options
                      (demo_state_scanned\<lparr>forceFullReconciliation := True\<rparr>))))"
proof -
  let ?st = "demo_state_scanned\<lparr>forceFullReconciliation := True\<rparr>"
  have h: "forceFullReconciliation ?st \<and> fs_access demo_env (CLAUDE_CODE_PROJECTS_PATH demo_env)
        \<and> \<not> cache_hit demo_env 5000 demo_options (sessionCache ?st)"
    by (simp add: demo_env_sel cache_hit_def demo_state_scanned_def)
  have c: "''/p/d'' \<in> set (getProjectDirs demo_env)"
    "fs_readdir demo_env ''/p/d'' = Some [(''s1.jsonl'', File)]"
    "(''s1.jsonl'', File) \<in> set [(''s1.jsonl'', File)]"
    "snd (''s1.jsonl'', File) = File \<and> ends_with ''.jsonl'' (fst (''s1.jsonl'', File))
       \<and> (str_truthy (opt_sessionId demo_options)
            \<longrightarrow> Some (path_basename (fst (''s1.jsonl'', File))) = opt_sessionId demo_options)"
    by (simp_all add: demo_dirs demo_env_sel ends_with_def demo_options_def str_truthy_def)
  note t = reconciliation_flag_one_shot[of ?st demo_env 5000 demo_options 5001]
  from t have a: "fst (consumeForceFullReconciliation ?st)" by simp
  from t h have b: "\<not> forceFullReconciliation
         (snd (snd (parseSessionsFromProjects demo_env 5000 5001 demo_options ?st)))"
    by blast
  from t h c have "FsStat (path_join ''/p/d'' (fst (''s1.jsonl'', File)))
       \<in> set (fst (snd (parseSessionsFromProjects demo_env 5000 5001 demo_options ?st)))"
    by blast
  then have "FsStat ''/p/d/s1.jsonl''
       \<in> set (fst (snd (parseSessionsFromProjects demo_env 5000 5001 demo_options ?st)))"
    by (simp add: path_join_def)
  with a b show ?thesis by blast
qed

section \<open>Further facts about the fresh scan\<close>

lemma scan_entry_trace_prefix:
  "\<exists>ext. acc_trace (scan_entry E options dirty needsFullStat d entry acc) = acc_trace acc @ ext"
  by (auto simp: scan_entry_def Let_def split: option.splits)

lemma scan_entries_trace_prefix:
  "\<exists>ext. acc_trace (foldl (\<lambda>a entry. scan_entry E options dirty needsFullStat d entry a)
                       acc entries) = acc_trace acc @ ext"
proof (induction entries arbitrary: acc)
  case Nil
  show ?case by simp
next
  case (Cons e es)
  from scan_entry_trace_prefix[of E options dirty needsFullStat d e acc]
  obtain x where x: "acc_trace (scan_entry E options dirty needsFullStat d e acc) = acc_trace acc @ x"
    by blast
  from Cons[of "scan_entry E options dirty needsFullStat d e acc"] x
  show ?case by auto
qed

lemma watchProjectDir_trace_prefix: "\<exists>ext. fst (watchProjectDir E p tw) = fst tw @ ext"
  by (auto simp: watchProjectDir_def)

lemma scan_dir_trace_prefix:
  "\<exists>ext. acc_trace (scan_dir E options dirty needsFullStat acc d) = acc_trace acc @ ext"
proof -
  let ?acc1 = "acc\<lparr>acc_watcher := snd (watchProjectDir E d (acc_trace acc, acc_watcher acc)),
                   acc_trace := fst (watchProjectDir E d (acc_trace acc, acc_watcher acc))
                                  @ [FsReaddir d]\<rparr>"
  from watchProjectDir_trace_prefix[of E d "(acc_trace acc, acc_watcher acc)"]
  obtain x where a: "acc_trace ?acc1 = acc_trace acc @ x" by auto
  show ?thesis
  proof (cases "fs_readdir E d")
    case None
    with a show ?thesis by (simp add: scan_dir_def Let_def)
  next
    case (Some ents)
    from scan_entries_trace_prefix[of E options dirty needsFullStat d ?acc1 ents]
    obtain y where "acc_trace (foldl (\<lambda>a entry. scan_entry E options dirty needsFullStat d entry a)
                       ?acc1 ents) = acc_trace ?acc1 @ y" by blast
    with a Some show ?thesis by (simp add: scan_dir_def Let_def)
  qed
qed

lemma scan_dirs_trace_prefix:
  "\<exists>ext. acc_trace (foldl (scan_dir E options dirty needsFullStat) acc dirs) = acc_trace acc @ ext"
proof (induction dirs arbitrary: acc)
  case Nil
  show ?case by simp
next
  case (Cons d ds)
  from scan_dir_trace_prefix[of E options dirty needsFullStat acc d]
  obtain x where "acc_trace (scan_dir E options dirty needsFullStat acc d) = acc_trace acc @ x"
    by blast
  with Cons[of "scan_dir E options dirty needsFullStat acc d"] show ?case by auto
qed

lemma load_sessions_trace_prefix:
  "\<exists>ext. snd (snd (load_sessions E now files agg sessions tr)) = tr @ ext"
proof (induction files arbitrary: agg sessions tr)
  case Nil
  show ?case by simp
next
  case (Cons f fs)
  show ?case
  proof (cases "aggregate_hit agg f")
    case (Some c)
    with Cons[of "map_set (file_sessionId f) (c\<lparr>lastAccessed := now\<rparr>) agg" "sessions @ usageRows c" tr]
    show ?thesis by simp
  next
    case None
    show ?thesis
    proof (cases "parseSessionFileRows E (file_sessionId f) (file_mtimeMs f) (readJsonlFile E (filePath f))")
      case (Inl e)
      with None show ?thesis by simp
    next
      case (Inr rows)
      from Cons[of "map_set (file_sessionId f)
                        \<lparr> updatedAt = file_mtimeMs f, usageRows = rows, lastAccessed = now \<rparr> agg"
                   "sessions @ rows" "tr @ [FsReadFile (filePath f)]"]
      obtain x where "snd (snd (load_sessions E now fs (map_set (file_sessionId f)
                        \<lparr> updatedAt = file_mtimeMs f, usageRows = rows, lastAccessed = now \<rparr> agg)
                   (sessions @ rows) (tr @ [FsReadFile (filePath f)]))) = (tr @ [FsReadFile (filePath f)]) @ x"
        by blast
      with None Inr show ?thesis by simp
    qed
  qed
qed

lemma fresh_scan_loaded:
  "fst (fresh_scan E now now_end options tr st)
     = fst (load_sessions E now
              (sort_key (\<lambda>f. - file_mtimeMs f) (sessionFiles (collected E options tr st)))
              (sessionAggregateCache st) [] (acc_trace (collected E options tr st)))"
  "fst (snd (fresh_scan E now now_end options tr st))
     = snd (snd (load_sessions E now
              (sort_key (\<lambda>f. - file_mtimeMs f) (sessionFiles (collected E options tr st)))
              (sessionAggregateCache st) [] (acc_trace (collected E options tr st))))"
  by (cases "forceFullReconciliation st";
      simp add: fresh_scan_def collected_def Let_def consumeForceFullReconciliation_def
        split: sum.splits)+

lemma collected_trace_prefix:
  "\<exists>x. acc_trace (collected E options tr st)
         = tr @ FsReaddir (CLAUDE_CODE_PROJECTS_PATH E) # x"
  unfolding collected_def
  using scan_dirs_trace_prefix[of E options "dirtyPaths (sessionWatcher st)"
      "forceFullReconciliation st"
      "\<lparr> sessionFiles = [], seenFilePaths = [],
        acc_index = sessionMetadataIndex st,
        acc_watcher = (sessionWatcher st)\<lparr>dirtyPaths := []\<rparr>,
        acc_trace = tr @ [FsReaddir (CLAUDE_CODE_PROJECTS_PATH E)] \<rparr>" "getProjectDirs E"]
  by auto

lemma fresh_scan_trace_prefix:
  "\<exists>rest. fst (snd (fresh_scan E now now_end options tr st))
            = tr @ FsReaddir (CLAUDE_CODE_PROJECTS_PATH E) # rest"
proof -
  from collected_trace_prefix
  obtain x where "acc_trace (collected E options tr st)
                    = tr @ FsReaddir (CLAUDE_CODE_PROJECTS_PATH E) # x"
    by blast
  moreover from load_sessions_trace_prefix
  obtain y where "snd (snd (load_sessions E now
        (sort_key (\<lambda>f. - file_mtimeMs f) (sessionFiles (collected E options tr st)))
        (sessionAggregateCache st) [] (acc_trace (collected E options tr st))))
      = acc_trace (collected E options tr st) @ y"
    by blast
  ultimately show ?thesis by (simp add: fresh_scan_loaded(2))
qed

lemma watchProjectDir_dirty [simp]:
  "dirtyPaths (snd (watchProjectDir E p tw)) = dirtyPaths (snd tw)"
  by (simp add: watchProjectDir_def)

lemma push_file_watcher [simp]: "acc_watcher (push_file since f acc) = acc_watcher acc"
  by (simp add: push_file_def)

lemma scan_entry_watcher [simp]:
  "acc_watcher (scan_entry E options dirty needsFullStat d entry acc) = acc_watcher acc"
  by (auto simp: scan_entry_def Let_def split: option.splits)

lemma scan_entries_watcher [simp]:
  "acc_watcher (foldl (\<lambda>a entry. scan_entry E options dirty needsFullStat d entry a) acc entries)
     = acc_watcher acc"
  by (induction entries arbitrary: acc) simp_all

lemma scan_dir_dirty [simp]:
  "dirtyPaths (acc_watcher (scan_dir E options dirty needsFullStat acc d))
     = dirtyPaths (acc_watcher acc)"
  by (simp add: scan_dir_def Let_def split: option.splits)

lemma scan_dirs_dirty [simp]:
  "dirtyPaths (acc_watcher (foldl (scan_dir E options dirty needsFullStat) acc dirs))
     = dirtyPaths (acc_watcher acc)"
  by (induction dirs arbitrary: acc) simp_all

lemma fresh_scan_drains:
  "dirtyPaths (sessionWatcher (snd (snd (fresh_scan E now now_end options tr st)))) = []"
  by (simp add: fresh_scan_def Let_def consumeForceFullReconciliation_def split: sum.splits)

lemma fresh_scan_stores:
  "\<not> str_truthy (opt_sessionId options) \<Longrightarrow>
   fst (fresh_scan E now now_end options tr st) = Inr rows \<Longrightarrow>
   sessionCache (snd (snd (fresh_scan E now now_end options tr st)))
     = \<lparr> lastCheck = now_end, lastResult = rows, lastLimit = effective_limit options,
         lastSince = opt_since options \<rparr>"
  by (cases "forceFullReconciliation st")
    (auto simp: fresh_scan_def Let_def consumeForceFullReconciliation_def split: sum.splits)




lemma collected_limit [simp]:
  "collected E (options\<lparr>opt_limit := l\<rparr>) tr st = collected E options tr st"
  by (simp add: collected_def)


lemma startSessionWatcher_listed_events:
  "ev \<in> set (fst (startSessionWatcher_listed E tw)) \<Longrightarrow>
     ev \<in> set (fst tw) \<or> (\<exists>q. ev = FsWatch q)"
  unfolding startSessionWatcher_listed_def by (rule watch_dirs_events)

section \<open>Zero omission\<close>

lemma accepted_records_Nil [simp]: "accepted_records E [] = []"
  by (simp add: accepted_records_def decode_lines_def List.map_filter_simps)

lemma accepted_records_Cons:
  "accepted_records E (l # ls) =
     (if js_trim l = [] then accepted_records E ls
      else case json_parse E (js_trim l) of
             None \<Rightarrow> accepted_records E ls
           | Some e \<Rightarrow> if watcher_isTokenBearingAssistant e then e # accepted_records E ls
                       else accepted_records E ls)"
  by (simp add: accepted_records_def decode_lines_def List.map_filter_simps split: option.splits)

lemma delta_tokens_row_tokens: "delta_tokens e = row_tokens e"
  by (simp add: delta_tokens_def row_tokens_def Let_def)

lemma delta_lines_emits:
  "map (\<lambda>u. (messageId u, upd_tokens u)) (fst (delta_lines E now sid ls))
     = take (length (fst (delta_lines E now sid ls)))
         (map (\<lambda>e. (entry_message_id e, delta_tokens e)) (accepted_records E ls))"
  by (induction ls) (auto simp: accepted_records_Cons split: option.splits sum.splits)

lemma delta_lines_emits_all:
  "snd (delta_lines E now sid ls) = None \<Longrightarrow>
     length (fst (delta_lines E now sid ls)) = length (accepted_records E ls)"
  by (induction ls) (auto simp: accepted_records_Cons split: option.splits sum.splits if_splits)

lemma processJsonlDelta_reads:
  assumes "callback st" "fs_stat E p = Some (mtimeMs, fsize)"
    "start = delta_start_offset fsize
               (case map_of (fileOffsets st) p of Some k \<Rightarrow> k | None \<Rightarrow> 0)"
    "fsize \<noteq> start" "fs_read E p start (fsize - start) = Some chunk"
  shows "fst (processJsonlDelta E now p st)
           = delta_lines E now (path_basename p) (split_lines chunk)"
proof -
  have "start \<le> fsize" using assms(3) by (simp add: delta_start_offset_def)
  then have "delta_read E p start (delta_read_length fsize start) = Some chunk"
    using assms(5) by (simp add: delta_read_def delta_read_length_def nat_diff_distrib')
  with assms(1,2,3,4) show ?thesis
    by (simp add: processJsonlDelta_def Let_def)
qed

lemma extractSlug_object:
  "parser_isTokenBearingAssistant e \<Longrightarrow> \<exists>sn. extractSlug [e] = Inr sn"
  by (cases e)
    (auto simp: extractSlug_def parser_isTokenBearingAssistant_def split: json.splits)

lemma single_record_row:
  assumes "parser_isTokenBearingAssistant e" "extractProjectPath [e] = Inr pp"
    "parser_toTimestamp E (get_prop e ''timestamp'') mt = Inr ts"
  shows "\<exists>r. parseSessionFileRows E sid mt [e] = Inr [r] \<and> tokens r = row_tokens e"
proof -
  from extractSlug_object[OF assms(1)] obtain sn where "extractSlug [e] = Inr sn" by blast
  with assms show ?thesis
    by (simp add: parseSessionFileRows_def build_row_def)
qed

lemma record_has_row:
  assumes "parser_isTokenBearingAssistant e" "e \<in> set entries"
    "parseSessionFileRows E sid mt entries = Inr rows"
  shows "\<exists>r\<in>set rows. tokens r
           = row_tokens (last (filter (\<lambda>x. parser_isTokenBearingAssistant x
                                         \<and> entry_message_id x = entry_message_id e) entries))"
proof -
  let ?same = "filter (\<lambda>x. parser_isTokenBearingAssistant x
                            \<and> entry_message_id x = entry_message_id e) entries"
  from assms(3) obtain sn pp m where m: "dedupe_rows E sid mt sn pp entries [] = Inr m"
    and rows: "rows = map snd m"
    by (auto simp: parseSessionFileRows_def split: sum.splits)
  from assms(1,2) have ne: "?same \<noteq> []" by (auto simp: filter_empty_conv)
  from dedupe_rows_last_write[OF m, of "entry_message_id e"] ne
  have "map_option tokens (map_of m (entry_message_id e)) = Some (row_tokens (last ?same))"
    by simp
  then obtain r where r: "map_of m (entry_message_id e) = Some r"
    "tokens r = row_tokens (last ?same)" by auto
  from map_of_SomeD[OF r(1)] rows have "r \<in> set rows" by force
  with r(2) show ?thesis by blast
qed

text \<open>
  C7 (zero omission on both paths). The token object the delta path builds for a record
  is the one the batch path builds, and it follows the omit-if-zero rule: no cacheRead
  when the cache-read counter is zero, no cacheWrite when the cache-creation counter is
  zero, the exact counter when it is above zero. Batch path: a validated record alone in
  a file, when neither its working directory nor its timestamp makes the builder raise,
  yields exactly one row, with that token object; in any file that the builder gets
  through, every validated record has a row, which carries the token object of the last
  validated record with its message id; and every row returned comes from a validated
  record. Delta path: the payloads of the callbacks are, in order, those of the accepted
  records of the chunk, message id and token object, all of them when no timestamp makes
  the loop raise and a first part of them otherwise; this is what \<^verbatim>\<open>processJsonlDelta\<close>
  emits whenever it reads a chunk; and every payload comes from a validated record.
\<close>

theorem zero_omission_both_paths:
  "delta_tokens e = row_tokens e \<and> zero_omitted e (row_tokens e)
   \<and> (parser_isTokenBearingAssistant e \<and> extractProjectPath [e] = Inr pp
        \<and> parser_toTimestamp E (get_prop e ''timestamp'') mt = Inr ts
      \<longrightarrow> (\<exists>r. parseSessionFileRows E sid mt [e] = Inr [r] \<and> tokens r = row_tokens e))
   \<and> (parser_isTokenBearingAssistant e \<and> e \<in> set entries
        \<and> parseSessionFileRows E sid mt entries = Inr rows
      \<longrightarrow> (\<exists>r\<in>set rows. tokens r
              = row_tokens (last (filter (\<lambda>x. parser_isTokenBearingAssistant x
                                            \<and> entry_message_id x = entry_message_id e) entries))))
   \<and> (parseSessionFileRows E sid mt entries = Inr rows \<longrightarrow>
        (\<forall>r\<in>set rows. \<exists>x\<in>set entries.
            parser_isTokenBearingAssistant x \<and> tokens r = row_tokens x
            \<and> zero_omitted x (tokens r)))
   \<and> map (\<lambda>u. (messageId u, upd_tokens u)) (fst (delta_lines E now sid ls))
       = take (length (fst (delta_lines E now sid ls)))
           (map (\<lambda>x. (entry_message_id x, row_tokens x)) (accepted_records E ls))
   \<and> (snd (delta_lines E now sid ls) = None \<longrightarrow>
        map (\<lambda>u. (messageId u, upd_tokens u)) (fst (delta_lines E now sid ls))
          = map (\<lambda>x. (entry_message_id x, row_tokens x)) (accepted_records E ls))
   \<and> (callback st \<and> fs_stat E p = Some (mtimeMs, fsize)
        \<and> start = delta_start_offset fsize
                    (case map_of (fileOffsets st) p of Some k \<Rightarrow> k | None \<Rightarrow> 0)
        \<and> fsize \<noteq> start \<and> fs_read E p start (fsize - start) = Some chunk
        \<and> snd (fst (processJsonlDelta E now p st)) = None
      \<longrightarrow> map (\<lambda>u. (messageId u, upd_tokens u)) (fst (fst (processJsonlDelta E now p st)))
            = map (\<lambda>x. (entry_message_id x, row_tokens x))
                (accepted_records E (split_lines chunk)))
   \<and> (\<forall>u\<in>set (fst (delta_lines E now sid ls)). \<exists>l\<in>set ls. \<exists>x.
          json_parse E (js_trim l) = Some x \<and> watcher_isTokenBearingAssistant x
          \<and> upd_tokens u = delta_tokens x \<and> zero_omitted x (upd_tokens u))"
proof (intro conjI impI ballI)
  show "delta_tokens e = row_tokens e" by (rule delta_tokens_row_tokens)
  show "zero_omitted e (row_tokens e)" by (rule row_tokens_zero_omitted)
next
  assume "parser_isTokenBearingAssistant e \<and> extractProjectPath [e] = Inr pp
        \<and> parser_toTimestamp E (get_prop e ''timestamp'') mt = Inr ts"
  then show "\<exists>r. parseSessionFileRows E sid mt [e] = Inr [r] \<and> tokens r = row_tokens e"
    using single_record_row[of e pp E mt ts sid] by blast
next
  assume "parser_isTokenBearingAssistant e \<and> e \<in> set entries
        \<and> parseSessionFileRows E sid mt entries = Inr rows"
  then show "\<exists>r\<in>set rows. tokens r
              = row_tokens (last (filter (\<lambda>x. parser_isTokenBearingAssistant x
                                            \<and> entry_message_id x = entry_message_id e) entries))"
    using record_has_row[of e entries E sid mt rows] by blast
next
  fix r
  assume p: "parseSessionFileRows E sid mt entries = Inr rows" and r: "r \<in> set rows"
  from p obtain sn pp m where m: "dedupe_rows E sid mt sn pp entries [] = Inr m"
    and rows: "rows = map snd m"
    by (auto simp: parseSessionFileRows_def split: sum.splits)
  from r rows obtain kr where kr: "kr \<in> set m" "r = snd kr" by auto
  from dedupe_rows_origin[OF m kr(1)] kr(2)
  obtain x where "x \<in> set entries" "parser_isTokenBearingAssistant x" "tokens r = row_tokens x"
    by auto
  then show "\<exists>x\<in>set entries. parser_isTokenBearingAssistant x \<and> tokens r = row_tokens x
          \<and> zero_omitted x (tokens r)"
    using row_tokens_zero_omitted[of x] by auto
next
  show emits: "map (\<lambda>u. (messageId u, upd_tokens u)) (fst (delta_lines E now sid ls))
       = take (length (fst (delta_lines E now sid ls)))
           (map (\<lambda>x. (entry_message_id x, row_tokens x)) (accepted_records E ls))"
    using delta_lines_emits[of E now sid ls] by (simp add: delta_tokens_row_tokens)
  assume "snd (delta_lines E now sid ls) = None"
  from delta_lines_emits_all[OF this] emits
  show "map (\<lambda>u. (messageId u, upd_tokens u)) (fst (delta_lines E now sid ls))
          = map (\<lambda>x. (entry_message_id x, row_tokens x)) (accepted_records E ls)"
    by simp
next
  assume a: "callback st \<and> fs_stat E p = Some (mtimeMs, fsize)
        \<and> start = delta_start_offset fsize
                    (case map_of (fileOffsets st) p of Some k \<Rightarrow> k | None \<Rightarrow> 0)
        \<and> fsize \<noteq> start \<and> fs_read E p start (fsize - start) = Some chunk
        \<and> snd (fst (processJsonlDelta E now p st)) = None"
  then have d: "fst (processJsonlDelta E now p st)
                  = delta_lines E now (path_basename p) (split_lines chunk)"
    using processJsonlDelta_reads[of st E p mtimeMs fsize start chunk now] by blast
  with a have n: "snd (delta_lines E now (path_basename p) (split_lines chunk)) = None" by simp
  from delta_lines_emits_all[OF n] delta_lines_emits[of E now "path_basename p" "split_lines chunk"]
  show "map (\<lambda>u. (messageId u, upd_tokens u)) (fst (fst (processJsonlDelta E now p st)))
            = map (\<lambda>x. (entry_message_id x, row_tokens x))
                (accepted_records E (split_lines chunk))"
    by (simp add: d delta_tokens_row_tokens)
next
  fix u
  assume "u \<in> set (fst (delta_lines E now sid ls))"
  from delta_lines_origin[OF this]
  obtain l x where "l \<in> set ls" "json_parse E (js_trim l) = Some x"
    "watcher_isTokenBearingAssistant x" "upd_tokens u = delta_tokens x"
    by blast
  then show "\<exists>l\<in>set ls. \<exists>x. json_parse E (js_trim l) = Some x
      \<and> watcher_isTokenBearingAssistant x
      \<and> upd_tokens u = delta_tokens x \<and> zero_omitted x (upd_tokens u)"
    using delta_tokens_zero_omitted[of x] by auto
qed
theorem zero_omission_both_paths_witness:
  "(\<exists>r. parseSessionFileRows demo_env ''s1'' 7
            [mk_entry ''m1'' ''claude'' (mk_usage 3 954 17890 1297)] = Inr [r]
         \<and> tokens r = \<lparr> input = Fin 3, output = Fin 954,
                         cacheRead = Some (Fin 17890), cacheWrite = Some (Fin 1297) \<rparr>)
   \<and> (\<exists>r. parseSessionFileRows demo_env ''s1'' 7
            [mk_entry ''m2'' ''claude'' (mk_usage 3 500 0 0)] = Inr [r]
         \<and> tokens r = \<lparr> input = Fin 3, output = Fin 500, cacheRead = None, cacheWrite = None \<rparr>)
   \<and> map (\<lambda>u. (messageId u, upd_tokens u))
        (fst (fst (processJsonlDelta demo_env 12 ''/p/d/s1.jsonl''
                     \<lparr> callback = True, fileOffsets = [] \<rparr>)))
       = [(''m1'', \<lparr> input = Fin 3, output = Fin 954,
                     cacheRead = Some (Fin 17890), cacheWrite = Some (Fin 1297) \<rparr>),
          (''m2'', \<lparr> input = Fin 3, output = Fin 500, cacheRead = None, cacheWrite = None \<rparr>)]"
proof -
  let ?A = "mk_entry ''m1'' ''claude'' (mk_usage 3 954 17890 1297)"
  let ?B = "mk_entry ''m2'' ''claude'' (mk_usage 3 500 0 0)"
  let ?st = "\<lparr> callback = True, fileOffsets = ([] :: (string \<times> nat) list) \<rparr>"
  have v: "parser_isTokenBearingAssistant ?A" "parser_isTokenBearingAssistant ?B"
    by (simp_all add: parser_isTokenBearingAssistant_def mk_entry_def mk_usage_def js_trim_def
        is_js_space_def)
  have m: "extractProjectPath [?A] = Inr None" "extractProjectPath [?B] = Inr None"
    "parser_toTimestamp demo_env (get_prop ?A ''timestamp'') 7 = Inr 7"
    "parser_toTimestamp demo_env (get_prop ?B ''timestamp'') 7 = Inr 7"
    by (simp_all add: mk_entry_def parser_toTimestamp_def)
  have t: "row_tokens ?A = \<lparr> input = Fin 3, output = Fin 954,
                             cacheRead = Some (Fin 17890), cacheWrite = Some (Fin 1297) \<rparr>"
    "row_tokens ?B = \<lparr> input = Fin 3, output = Fin 500, cacheRead = None, cacheWrite = None \<rparr>"
    by (simp_all add: row_tokens_def entry_usage_def mk_entry_def mk_usage_def)
  from zero_omission_both_paths[where e = ?A and E = demo_env and pp = None and mt = 7
      and ts = 7 and sid = "''s1''"] v(1) m(1,3)
  have a: "\<exists>r. parseSessionFileRows demo_env ''s1'' 7 [?A] = Inr [r] \<and> tokens r = row_tokens ?A"
    by blast
  from zero_omission_both_paths[where e = ?B and E = demo_env and pp = None and mt = 7
      and ts = 7 and sid = "''s1''"] v(2) m(2,4)
  have b: "\<exists>r. parseSessionFileRows demo_env ''s1'' 7 [?B] = Inr [r] \<and> tokens r = row_tokens ?B"
    by blast
  have acc: "accepted_records demo_env (split_lines demo_content) = [?A, ?B]"
    by (simp add: accepted_records_Cons demo_content_def demo_env_def js_trim_def is_js_space_def
        watcher_isTokenBearingAssistant_def mk_entry_def mk_usage_def)
  have h: "callback ?st" "fs_stat demo_env ''/p/d/s1.jsonl'' = Some (7, 3)"
    "(0::nat) = delta_start_offset 3
                  (case map_of (fileOffsets ?st) ''/p/d/s1.jsonl'' of Some k \<Rightarrow> k | None \<Rightarrow> 0)"
    "(3::nat) \<noteq> 0" "fs_read demo_env ''/p/d/s1.jsonl'' 0 (3 - 0) = Some demo_content"
    by (simp_all add: demo_env_def demo_content_def delta_start_offset_def)
  have n: "snd (fst (processJsonlDelta demo_env 12 ''/p/d/s1.jsonl'' ?st)) = None"
    by (simp add: processJsonlDelta_def Let_def demo_env_def demo_content_def
        delta_start_offset_def delta_read_def delta_read_length_def js_trim_def is_js_space_def
        watcher_isTokenBearingAssistant_def mk_entry_def mk_usage_def watcher_toTimestamp_def)
  from zero_omission_both_paths[where E = demo_env and st = ?st and p = "''/p/d/s1.jsonl''"
      and mtimeMs = 7 and fsize = 3 and start = 0 and chunk = demo_content and now = 12] h n
  have "map (\<lambda>u. (messageId u, upd_tokens u))
          (fst (fst (processJsonlDelta demo_env 12 ''/p/d/s1.jsonl'' ?st)))
        = map (\<lambda>x. (entry_message_id x, row_tokens x))
            (accepted_records demo_env (split_lines demo_content))"
    by blast
  then have c: "map (\<lambda>u. (messageId u, upd_tokens u))
          (fst (fst (processJsonlDelta demo_env 12 ''/p/d/s1.jsonl'' ?st)))
        = [(''m1'', row_tokens ?A), (''m2'', row_tokens ?B)]"
    by (simp add: acc entry_message_id_def mk_entry_def)
  from a b c show ?thesis by (simp only: t)
qed

section \<open>The row limit and the empty cached result\<close>




text \<open>
  C9 (an empty cached result is not served), as the code has it. The claim as written
  fails for a scan whose root directory is not accessible: that scan returns the empty
  list before the cache is looked at and scans nothing. What holds: an empty cached
  whole-result makes the cache-hit condition false, whatever the limit, the since filter
  and the clock; and a scan whose root directory is accessible then performs a fresh
  scan: after the access check (and the start of the watcher) it lists the root, it
  drains the dirty set and consumes the reconciliation flag, and a global scan that
  returns rows stores them, with the clock, the limit and the since filter, as the new
  whole-result.
\<close>

theorem empty_cached_result_not_served:
  "(\<not> fs_access E (CLAUDE_CODE_PROJECTS_PATH E) \<longrightarrow>
      parseSessionsFromProjects E now now_end options st
        = (Inr [], [FsAccess (CLAUDE_CODE_PROJECTS_PATH E)], st))
   \<and> (lastResult (sessionCache st) = [] \<longrightarrow>
     \<not> cache_hit E now options (sessionCache st)
     \<and> (fs_access E (CLAUDE_CODE_PROJECTS_PATH E) \<longrightarrow>
          parseSessionsFromProjects E now now_end options st
            = fresh_scan E now now_end options
                (fst (startSessionWatcher E
                        ([FsAccess (CLAUDE_CODE_PROJECTS_PATH E)], sessionWatcher st)))
                (st\<lparr>sessionWatcher :=
                      snd (startSessionWatcher E
                             ([FsAccess (CLAUDE_CODE_PROJECTS_PATH E)], sessionWatcher st))\<rparr>)
          \<and> (\<exists>rest. fst (snd (parseSessionsFromProjects E now now_end options st))
                = fst (startSessionWatcher E
                         ([FsAccess (CLAUDE_CODE_PROJECTS_PATH E)], sessionWatcher st))
                  @ FsReaddir (CLAUDE_CODE_PROJECTS_PATH E) # rest)
          \<and> dirtyPaths (sessionWatcher
                (snd (snd (parseSessionsFromProjects E now now_end options st)))) = []
          \<and> \<not> forceFullReconciliation
                (snd (snd (parseSessionsFromProjects E now now_end options st)))
          \<and> (\<forall>rows. \<not> str_truthy (opt_sessionId options)
                 \<and> fst (parseSessionsFromProjects E now now_end options st) = Inr rows
               \<longrightarrow> sessionCache (snd (snd (parseSessionsFromProjects E now now_end options st)))
                     = \<lparr> lastCheck = now_end, lastResult = rows,
                         lastLimit = effective_limit options,
                         lastSince = opt_since options \<rparr>)))"
proof (intro impI conjI allI)
  assume "\<not> fs_access E (CLAUDE_CODE_PROJECTS_PATH E)"
  then show "parseSessionsFromProjects E now now_end options st
        = (Inr [], [FsAccess (CLAUDE_CODE_PROJECTS_PATH E)], st)"
    by (simp add: parseSessionsFromProjects_def)
next
  assume e: "lastResult (sessionCache st) = []"
  then show miss: "\<not> cache_hit E now options (sessionCache st)"
    by (simp add: cache_hit_def)
  let ?tw = "startSessionWatcher E ([FsAccess (CLAUDE_CODE_PROJECTS_PATH E)], sessionWatcher st)"
  assume "fs_access E (CLAUDE_CODE_PROJECTS_PATH E)"
  with miss show p: "parseSessionsFromProjects E now now_end options st
            = fresh_scan E now now_end options (fst ?tw) (st\<lparr>sessionWatcher := snd ?tw\<rparr>)"
    by (simp add: parseSessionsFromProjects_def Let_def)
  from fresh_scan_trace_prefix[of E now now_end options "fst ?tw" "st\<lparr>sessionWatcher := snd ?tw\<rparr>"]
  show "\<exists>rest. fst (snd (parseSessionsFromProjects E now now_end options st))
                = fst ?tw @ FsReaddir (CLAUDE_CODE_PROJECTS_PATH E) # rest"
    by (simp only: p)
  show "dirtyPaths (sessionWatcher
                (snd (snd (parseSessionsFromProjects E now now_end options st)))) = []"
    by (simp only: p fresh_scan_drains)
  show "\<not> forceFullReconciliation
                (snd (snd (parseSessionsFromProjects E now now_end options st)))"
    by (simp only: p fresh_scan_flag simp_thms)
  fix rows
  assume "\<not> str_truthy (opt_sessionId options)
                 \<and> fst (parseSessionsFromProjects E now now_end options st) = Inr rows"
  then have "\<not> str_truthy (opt_sessionId options)"
    "fst (fresh_scan E now now_end options (fst ?tw) (st\<lparr>sessionWatcher := snd ?tw\<rparr>)) = Inr rows"
    by (simp_all add: p)
  from fresh_scan_stores[OF this]
  show "sessionCache (snd (snd (parseSessionsFromProjects E now now_end options st)))
                     = \<lparr> lastCheck = now_end, lastResult = rows,
                         lastLimit = effective_limit options,
                         lastSince = opt_since options \<rparr>"
    by (simp only: p)
qed

theorem empty_cached_result_not_served_witness:
  "lastResult (sessionCache demo_state) = []
   \<and> effective_limit demo_options = lastLimit (sessionCache demo_state)
   \<and> (10 - lastCheck (sessionCache demo_state) < CACHE_TTL_MS demo_env)
   \<and> fst (parseSessionsFromProjects demo_env 10 11 demo_options demo_state) = Inr demo_rows
   \<and> sessionCache (snd (snd (parseSessionsFromProjects demo_env 10 11 demo_options demo_state)))
       = \<lparr> lastCheck = 11, lastResult = demo_rows, lastLimit = 100, lastSince = None \<rparr>"
proof -
  have h: "lastResult (sessionCache demo_state) = []"
    "effective_limit demo_options = lastLimit (sessionCache demo_state)"
    "10 - lastCheck (sessionCache demo_state) < CACHE_TTL_MS demo_env"
    "fs_access demo_env (CLAUDE_CODE_PROJECTS_PATH demo_env)"
    "\<not> str_truthy (opt_sessionId demo_options)"
    by (simp_all add: demo_state_def demo_cache_def demo_options_def effective_limit_def
        demo_env_sel str_truthy_def)
  have s: "sessionWatcher demo_state = demo_watcher" by (simp add: demo_state_def)
  note t = empty_cached_result_not_served[of demo_env 10 11 demo_options demo_state]
  from t h(1,4)
  have "parseSessionsFromProjects demo_env 10 11 demo_options demo_state
          = fresh_scan demo_env 10 11 demo_options
              (fst (startSessionWatcher demo_env
                      ([FsAccess (CLAUDE_CODE_PROJECTS_PATH demo_env)], sessionWatcher demo_state)))
              (demo_state\<lparr>sessionWatcher :=
                    snd (startSessionWatcher demo_env
                           ([FsAccess (CLAUDE_CODE_PROJECTS_PATH demo_env)],
                            sessionWatcher demo_state))\<rparr>)"
    by blast
  then have r: "fst (parseSessionsFromProjects demo_env 10 11 demo_options demo_state) = Inr demo_rows"
    by (simp add: demo_env_sel s demo_start demo_options_def demo_fresh)
  from t h(1,4,5) r
  have "sessionCache (snd (snd (parseSessionsFromProjects demo_env 10 11 demo_options demo_state)))
       = \<lparr> lastCheck = 11, lastResult = demo_rows, lastLimit = effective_limit demo_options,
           lastSince = opt_since demo_options \<rparr>"
    by blast
  then have "sessionCache (snd (snd (parseSessionsFromProjects demo_env 10 11 demo_options demo_state)))
       = \<lparr> lastCheck = 11, lastResult = demo_rows, lastLimit = 100, lastSince = None \<rparr>"
    by (simp add: effective_limit_def demo_options_def)
  with h r show ?thesis by blast
qed

text \<open>
  The claim C9 as written fails in the small world without its projects directory: a
  global scan, the cached result empty, the limit and the since filter equal to the
  cached ones, one millisecond after the last check; the scan returns the empty list
  after the access check alone, lists nothing, and leaves the state, the whole-result
  cache included, as it was, where a fresh scan would have listed the root and stored a
  new whole-result.
\<close>

theorem empty_cached_result_counterexample:
  "\<not> str_truthy (opt_sessionId demo_options)
   \<and> lastResult (sessionCache demo_state) = []
   \<and> effective_limit demo_options = lastLimit (sessionCache demo_state)
   \<and> opt_since demo_options = lastSince (sessionCache demo_state)
   \<and> 10 - lastCheck (sessionCache demo_state) < CACHE_TTL_MS demo_env_no_root
   \<and> parseSessionsFromProjects demo_env_no_root 10 11 demo_options demo_state
       = (Inr [], [FsAccess ''/p''], demo_state)
   \<and> fresh_scan demo_env_no_root 10 11 demo_options [FsAccess ''/p''] demo_state
       \<noteq> (Inr [], [FsAccess ''/p''], demo_state)
   \<and> FsReaddir ''/p''
       \<in> set (fst (snd (fresh_scan demo_env_no_root 10 11 demo_options [FsAccess ''/p'']
                          demo_state)))"
proof -
  have e: "CLAUDE_CODE_PROJECTS_PATH demo_env_no_root = ''/p''"
    "\<not> fs_access demo_env_no_root ''/p''" "CACHE_TTL_MS demo_env_no_root = 2000"
    "getProjectDirs demo_env_no_root = []"
    by (simp_all add: demo_env_no_root_def demo_env_def getProjectDirs_def)
  have f: "fst (snd (fresh_scan demo_env_no_root 10 11 demo_options [FsAccess ''/p''] demo_state))
             = [FsAccess ''/p'', FsReaddir ''/p'']"
    by (simp add: fresh_scan_def Let_def e consumeForceFullReconciliation_def demo_state_def)
  then have g: "fresh_scan demo_env_no_root 10 11 demo_options [FsAccess ''/p''] demo_state
       \<noteq> (Inr [], [FsAccess ''/p''], demo_state)"
    by auto
  have p: "parseSessionsFromProjects demo_env_no_root 10 11 demo_options demo_state
       = (Inr [], [FsAccess ''/p''], demo_state)"
    by (simp add: parseSessionsFromProjects_def e)
  have h: "\<not> str_truthy (opt_sessionId demo_options)"
    "lastResult (sessionCache demo_state) = []"
    "effective_limit demo_options = lastLimit (sessionCache demo_state)"
    "opt_since demo_options = lastSince (sessionCache demo_state)"
    "10 - lastCheck (sessionCache demo_state) < CACHE_TTL_MS demo_env_no_root"
    by (simp_all add: demo_options_def str_truthy_def demo_state_def demo_cache_def
        effective_limit_def e)
  from h p g f show ?thesis by simp
qed

end
